theory Spec2Isabelle
  imports Complex_Main
begin

section \<open>ROIAlign forward pass (src/layer/roialign.cpp)\<close>

text \<open>
  A C++ \<open>float\<close> is a \<open>real\<close>: the arithmetic on coordinates, weights and pixel values
  is exact. The \<open>int\<close> products that size the stencil vector and the divisor (lines 189
  and 191) are computed in 32 bits with two's-complement wrap-around, as the compiled
  code computes them. Every memory access of the source is a checked \<open>load\<close> or
  \<open>store\<close> that yields an error value when the index is outside the buffer, the
  \<open>std::vector\<close> constructor yields an error value when it is asked for a negative number
  of elements, and the \<open>-100\<close> return is the error \<open>AllocFailed\<close>. A ROI buffer that
  holds a NaN is treated apart, in \<open>forward_nan\<close> below: there the cast of a NaN to
  \<open>int\<close> is the error \<open>UndefinedCast\<close>. The conversions of a finite \<open>float\<close> to
  \<open>int\<close> (lines 90, 91 and 184-187) are the mathematical truncation and ceiling. The
  channel loop of the source is an OpenMP
  parallel loop over disjoint output slices; it is embedded as the sequential loop it is
  equivalent to.
\<close>

subsection \<open>Data\<close>

text \<open>The struct \<open>PreCalc\<close> (lines 25-35): four flat offsets and four weights.\<close>

record PreCalc =
  pos1 :: int
  pos2 :: int
  pos3 :: int
  pos4 :: int
  w1 :: real
  w2 :: real
  w3 :: real
  w4 :: real

text \<open>The members of the layer that \<open>load_param\<close> fills (lines 140-144).\<close>

record ROIAlign =
  pooled_width :: int
  pooled_height :: int
  spatial_scale :: real
  sampling_ratio :: int
  aligned :: bool

text \<open>
  The blob type \<open>Mat\<close> is declared outside this file. The forward pass uses its members
  \<open>w\<close>, \<open>h\<close>, \<open>c\<close> and the per-channel buffers that \<open>channel(q)\<close> returns; the record keeps
  exactly those, the buffers as one list of elements per channel.
\<close>

record Mat =
  mat_w :: int
  mat_h :: int
  mat_c :: int
  mat_data :: "real list list"

datatype buffer = RoiBlob | FeatureMap | StencilVector | OutputBlob

datatype error = AllocFailed | LengthError | OutOfBounds buffer | UndefinedCast

text \<open>The status that \<open>forward\<close> returns: \<open>-100\<close> at line 162, \<open>0\<close> at line 241.\<close>

fun status :: "error + 'a \<Rightarrow> int option" where
  "status (Inl AllocFailed) = Some (- 100)"
| "status (Inl _) = None"
| "status (Inr _) = Some 0"

subsection \<open>Memory accesses and loops\<close>

definition load :: "buffer \<Rightarrow> 'a list \<Rightarrow> int \<Rightarrow> error + 'a" where
  "load b xs i =
     (if 0 \<le> i \<and> i < int (length xs) then Inr (xs ! nat i) else Inl (OutOfBounds b))"

definition store :: "buffer \<Rightarrow> 'a list \<Rightarrow> int \<Rightarrow> 'a \<Rightarrow> error + 'a list" where
  "store b xs i v =
     (if 0 \<le> i \<and> i < int (length xs) then Inr (xs[nat i := v]) else Inl (OutOfBounds b))"

text \<open>The value of a 32-bit \<open>int\<close> expression whose exact value is \<open>x\<close>.\<close>

definition int32 :: "int \<Rightarrow> int" where
  "int32 x = (x + 2147483648) mod 4294967296 - 2147483648"

text \<open>Sequencing: the second step runs on the result of the first unless that failed.\<close>

definition and_then :: "error + 'a \<Rightarrow> ('a \<Rightarrow> error + 'b) \<Rightarrow> error + 'b" where
  "and_then m f = (case m of Inl e \<Rightarrow> Inl e | Inr x \<Rightarrow> f x)"

text \<open>\<open>for (int i = 0; i < n; i++) body\<close>, stopping at the first error.\<close>

fun for_loop :: "nat list \<Rightarrow> (nat \<Rightarrow> 's \<Rightarrow> error + 's) \<Rightarrow> 's \<Rightarrow> error + 's" where
  "for_loop [] body s = Inr s"
| "for_loop (i # js) body s = and_then (body i s) (for_loop js body)"

definition for_range :: "int \<Rightarrow> (nat \<Rightarrow> 's \<Rightarrow> error + 's) \<Rightarrow> 's \<Rightarrow> error + 's" where
  "for_range n body s = for_loop [0..<nat n] body s"

subsection \<open>The sampling plan (lines 37-131)\<close>

text \<open>The cast \<open>(int)y\<close> of lines 90-91 truncates toward zero.\<close>

definition trunc_int :: "real \<Rightarrow> int" where
  "trunc_int r = (if 0 \<le> r then \<lfloor>r\<rfloor> else \<lceil>r\<rceil>)"

text \<open>The stencil of lines 69-77, also the value of a fresh vector element.\<close>

definition zero_PreCalc :: PreCalc where
  "zero_PreCalc =
     \<lparr>pos1 = 0, pos2 = 0, pos3 = 0, pos4 = 0, w1 = 0, w2 = 0, w3 = 0, w4 = 0\<rparr>"


text \<open>
  Lines 64-123: the stencil stored for the sample point \<open>(yy, xx)\<close>. Both branches of
  line 67 store one stencil at the cursor and advance it; the store is in the loop body
  below.
\<close>

definition bilinear_stencil :: "int \<Rightarrow> int \<Rightarrow> real \<Rightarrow> real \<Rightarrow> PreCalc" where
  "bilinear_stencil height width yy xx =
     (let x = xx; y = yy in
      if y < - 1 \<or> y > real_of_int height \<or> x < - 1 \<or> x > real_of_int width
      then \<lparr>pos1 = 0, pos2 = 0, pos3 = 0, pos4 = 0, w1 = 0, w2 = 0, w3 = 0, w4 = 0\<rparr>
      else
        let y = (if y \<le> 0 then 0 else y);
            x = (if x \<le> 0 then 0 else x);
            y_low = trunc_int y;
            x_low = trunc_int x;
            (y_low, y_high, y) =
              (if y_low \<ge> height - 1
               then (height - 1, height - 1, real_of_int (height - 1))
               else (y_low, y_low + 1, y));
            (x_low, x_high, x) =
              (if x_low \<ge> width - 1
               then (width - 1, width - 1, real_of_int (width - 1))
               else (x_low, x_low + 1, x));
            ly = y - real_of_int y_low;
            lx = x - real_of_int x_low;
            hy = 1 - ly;
            hx = 1 - lx
        in \<lparr>pos1 = y_low * width + x_low,
            pos2 = y_low * width + x_high,
            pos3 = y_high * width + x_low,
            pos4 = y_high * width + x_high,
            w1 = hy * hx, w2 = hy * lx, w3 = ly * hx, w4 = ly * lx\<rparr>)"

text \<open>
  The values of the locals \<open>y_low\<close> and \<open>y_high\<close> (and, with the width, of \<open>x_low\<close> and
  \<open>x_high\<close>) after lines 83-107, for a sample coordinate \<open>v\<close> along an axis of \<open>n\<close> pixels.
\<close>

definition low_index :: "int \<Rightarrow> real \<Rightarrow> int" where
  "low_index n v =
     (let v = (if v \<le> 0 then 0 else v); v_low = trunc_int v
      in if v_low \<ge> n - 1 then n - 1 else v_low)"

definition high_index :: "int \<Rightarrow> real \<Rightarrow> int" where
  "high_index n v =
     (let v = (if v \<le> 0 then 0 else v); v_low = trunc_int v
      in if v_low \<ge> n - 1 then n - 1 else v_low + 1)"

text \<open>The value of the local \<open>ly\<close> (and \<open>lx\<close>) of lines 109-110 along the same axis.\<close>

definition low_offset :: "int \<Rightarrow> real \<Rightarrow> real" where
  "low_offset n v =
     (let v = (if v \<le> 0 then 0 else v); v_low = trunc_int v
      in if v_low \<ge> n - 1 then real_of_int (n - 1) - real_of_int (n - 1)
         else v - real_of_int v_low)"

text \<open>The sample coordinates \<open>yy\<close> (lines 56-58) and \<open>xx\<close> (lines 60-62).\<close>

definition sample_y :: "real \<Rightarrow> real \<Rightarrow> int \<Rightarrow> nat \<Rightarrow> nat \<Rightarrow> real" where
  "sample_y start_h bsize_h grid_h ph iy =
     start_h + real ph * bsize_h + (real iy + 0.5) * bsize_h / real_of_int grid_h"

definition sample_x :: "real \<Rightarrow> real \<Rightarrow> int \<Rightarrow> nat \<Rightarrow> nat \<Rightarrow> real" where
  "sample_x start_w bsize_w grid_w pw ix =
     start_w + real pw * bsize_w + (real ix + 0.5) * bsize_w / real_of_int grid_w"

text \<open>
  The body of the \<open>ix\<close> loop (lines 59-127); the state is the cursor \<open>pre_calc_index\<close>
  and the vector \<open>pre_calc\<close>.
\<close>

definition pre_calc_ix ::
  "int \<Rightarrow> int \<Rightarrow> real \<Rightarrow> real \<Rightarrow> int \<Rightarrow> nat \<Rightarrow> real \<Rightarrow> nat \<Rightarrow>
   int \<times> PreCalc list \<Rightarrow> error + int \<times> PreCalc list" where
  "pre_calc_ix height width start_w bsize_w grid_w pw yy ix =
     (\<lambda>(pre_calc_index, pre_calc).
        let xx = sample_x start_w bsize_w grid_w pw ix in
        and_then
          (store StencilVector pre_calc pre_calc_index (bilinear_stencil height width yy xx))
          (\<lambda>pre_calc'. Inr (pre_calc_index + 1, pre_calc')))"

text \<open>The body of the \<open>iy\<close> loop (lines 55-128).\<close>

definition pre_calc_iy ::
  "int \<Rightarrow> int \<Rightarrow> int \<Rightarrow> real \<Rightarrow> real \<Rightarrow> real \<Rightarrow> real \<Rightarrow> int \<Rightarrow> int \<Rightarrow> nat \<Rightarrow> nat \<Rightarrow> nat \<Rightarrow>
   int \<times> PreCalc list \<Rightarrow> error + int \<times> PreCalc list" where
  "pre_calc_iy height width ix_upper start_h start_w bsize_h bsize_w grid_h grid_w ph pw iy =
     (let yy = sample_y start_h bsize_h grid_h ph iy in
      for_range ix_upper (pre_calc_ix height width start_w bsize_w grid_w pw yy))"

text \<open>The whole function: the \<open>ph\<close> and \<open>pw\<close> loops around the two above, cursor at 0.\<close>

definition pre_calc_for_bilinear_interpolate ::
  "int \<Rightarrow> int \<Rightarrow> int \<Rightarrow> int \<Rightarrow> int \<Rightarrow> int \<Rightarrow> real \<Rightarrow> real \<Rightarrow> real \<Rightarrow> real \<Rightarrow> int \<Rightarrow> int \<Rightarrow>
   PreCalc list \<Rightarrow> error + PreCalc list" where
  "pre_calc_for_bilinear_interpolate height width p_height p_width iy_upper ix_upper
       start_h start_w bsize_h bsize_w grid_h grid_w pre_calc =
     and_then
       (for_range p_height (\<lambda>ph.
          for_range p_width (\<lambda>pw.
            for_range iy_upper
              (pre_calc_iy height width ix_upper start_h start_w bsize_h bsize_w
                 grid_h grid_w ph pw)))
          (0, pre_calc))
       (\<lambda>(pre_calc_index, pre_calc'). Inr pre_calc')"

subsection \<open>The quantities derived from the ROI (lines 164-189)\<close>

definition offset :: "ROIAlign \<Rightarrow> real" where
  "offset layer = (if aligned layer then 0.5 else 0.0)"

definition roi_start_w :: "ROIAlign \<Rightarrow> real list \<Rightarrow> real" where
  "roi_start_w layer roi_ptr = roi_ptr ! 0 * spatial_scale layer - offset layer"

definition roi_start_h :: "ROIAlign \<Rightarrow> real list \<Rightarrow> real" where
  "roi_start_h layer roi_ptr = roi_ptr ! 1 * spatial_scale layer - offset layer"

definition roi_end_w :: "ROIAlign \<Rightarrow> real list \<Rightarrow> real" where
  "roi_end_w layer roi_ptr = roi_ptr ! 2 * spatial_scale layer - offset layer"

definition roi_end_h :: "ROIAlign \<Rightarrow> real list \<Rightarrow> real" where
  "roi_end_h layer roi_ptr = roi_ptr ! 3 * spatial_scale layer - offset layer"

definition roi_width :: "ROIAlign \<Rightarrow> real list \<Rightarrow> real" where
  "roi_width layer roi_ptr =
     (let roi_width = roi_end_w layer roi_ptr - roi_start_w layer roi_ptr
      in if \<not> aligned layer then max roi_width 1 else roi_width)"

definition roi_height :: "ROIAlign \<Rightarrow> real list \<Rightarrow> real" where
  "roi_height layer roi_ptr =
     (let roi_height = roi_end_h layer roi_ptr - roi_start_h layer roi_ptr
      in if \<not> aligned layer then max roi_height 1 else roi_height)"

definition bin_size_w :: "ROIAlign \<Rightarrow> real list \<Rightarrow> real" where
  "bin_size_w layer roi_ptr = roi_width layer roi_ptr / real_of_int (pooled_width layer)"

definition bin_size_h :: "ROIAlign \<Rightarrow> real list \<Rightarrow> real" where
  "bin_size_h layer roi_ptr = roi_height layer roi_ptr / real_of_int (pooled_height layer)"

definition roi_bin_grid_h :: "ROIAlign \<Rightarrow> real list \<Rightarrow> int" where
  "roi_bin_grid_h layer roi_ptr =
     (if sampling_ratio layer > 0 then sampling_ratio layer
      else \<lceil>roi_height layer roi_ptr / real_of_int (pooled_height layer)\<rceil>)"

definition roi_bin_grid_w :: "ROIAlign \<Rightarrow> real list \<Rightarrow> int" where
  "roi_bin_grid_w layer roi_ptr =
     (if sampling_ratio layer > 0 then sampling_ratio layer
      else \<lceil>roi_width layer roi_ptr / real_of_int (pooled_width layer)\<rceil>)"

text \<open>Line 189: the product is an \<open>int\<close> product.\<close>

definition count :: "ROIAlign \<Rightarrow> real list \<Rightarrow> real" where
  "count layer roi_ptr =
     real_of_int
       (max (int32 (roi_bin_grid_h layer roi_ptr * roi_bin_grid_w layer roi_ptr)) 1)"

subsection \<open>The reduction (lines 209-239)\<close>

text \<open>The summand of lines 227-229, with its four reads of the channel buffer.\<close>

definition stencil_term :: "real list \<Rightarrow> PreCalc \<Rightarrow> error + real" where
  "stencil_term ptr pc =
     and_then (load FeatureMap ptr (pos1 pc)) (\<lambda>v1.
     and_then (load FeatureMap ptr (pos2 pc)) (\<lambda>v2.
     and_then (load FeatureMap ptr (pos3 pc)) (\<lambda>v3.
     and_then (load FeatureMap ptr (pos4 pc)) (\<lambda>v4.
       Inr (w1 pc * v1 + w2 pc * v2 + w3 pc * v3 + w4 pc * v4)))))"

text \<open>The body of the \<open>ix\<close> loop (lines 223-232); the state is the cursor and \<open>output_val\<close>.\<close>

definition accumulate ::
  "PreCalc list \<Rightarrow> real list \<Rightarrow> nat \<Rightarrow> int \<times> real \<Rightarrow> error + int \<times> real" where
  "accumulate pre_calc ptr ix =
     (\<lambda>(pre_calc_index, output_val).
        and_then (load StencilVector pre_calc pre_calc_index) (\<lambda>pc.
        and_then (stencil_term ptr pc) (\<lambda>t.
          Inr (pre_calc_index + 1, output_val + t))))"

text \<open>
  The body of the \<open>pw\<close> loop (lines 218-236); the state is the cursor and the channel's
  output buffer, \<open>outptr\<close> is the offset of the current row in it.
\<close>

definition pool_cell ::
  "int \<Rightarrow> int \<Rightarrow> real \<Rightarrow> PreCalc list \<Rightarrow> real list \<Rightarrow> int \<Rightarrow> nat \<Rightarrow>
   int \<times> real list \<Rightarrow> error + int \<times> real list" where
  "pool_cell grid_h grid_w cnt pre_calc ptr outptr pw =
     (\<lambda>(pre_calc_index, out).
        and_then
          (for_range grid_h (\<lambda>iy. for_range grid_w (accumulate pre_calc ptr))
             (pre_calc_index, 0))
          (\<lambda>(pre_calc_index', output_val).
             and_then (store OutputBlob out (outptr + int pw) (output_val / cnt))
               (\<lambda>out'. Inr (pre_calc_index', out'))))"

text \<open>The body of the \<open>ph\<close> loop (lines 216-238), with \<open>outptr += pooled_width\<close>.\<close>

definition pool_row ::
  "int \<Rightarrow> int \<Rightarrow> int \<Rightarrow> real \<Rightarrow> PreCalc list \<Rightarrow> real list \<Rightarrow> nat \<Rightarrow>
   int \<times> int \<times> real list \<Rightarrow> error + int \<times> int \<times> real list" where
  "pool_row p_width grid_h grid_w cnt pre_calc ptr ph =
     (\<lambda>(pre_calc_index, outptr, out).
        and_then
          (for_range p_width (pool_cell grid_h grid_w cnt pre_calc ptr outptr)
             (pre_calc_index, out))
          (\<lambda>(pre_calc_index', out'). Inr (pre_calc_index', outptr + p_width, out')))"

text \<open>One channel (lines 212-238): cursor and \<open>outptr\<close> start at 0.\<close>

definition pool_channel ::
  "int \<Rightarrow> int \<Rightarrow> int \<Rightarrow> int \<Rightarrow> real \<Rightarrow> PreCalc list \<Rightarrow> real list \<Rightarrow> real list \<Rightarrow>
   error + real list" where
  "pool_channel p_height p_width grid_h grid_w cnt pre_calc ptr out =
     and_then
       (for_range p_height (pool_row p_width grid_h grid_w cnt pre_calc ptr) (0, 0, out))
       (\<lambda>(pre_calc_index, outptr, out'). Inr out')"

text \<open>The body of the channel loop (lines 210-239); the state is the output blob.\<close>

definition forward_channel ::
  "int \<Rightarrow> int \<Rightarrow> int \<Rightarrow> int \<Rightarrow> real \<Rightarrow> PreCalc list \<Rightarrow> Mat \<Rightarrow> nat \<Rightarrow>
   real list list \<Rightarrow> error + real list list" where
  "forward_channel p_height p_width grid_h grid_w cnt pre_calc bottom_blob q top_blob =
     and_then (load FeatureMap (mat_data bottom_blob) (int q)) (\<lambda>ptr.
     and_then (load OutputBlob top_blob (int q)) (\<lambda>outptr.
     and_then (pool_channel p_height p_width grid_h grid_w cnt pre_calc ptr outptr) (\<lambda>out.
       Inr (top_blob[q := out]))))"

subsection \<open>The forward pass (lines 149-242)\<close>

text \<open>
  Lines 191-206: the vector of line 191 is created with \<open>n\<close> zero stencils and handed
  to the builder. \<open>n\<close> is the product of four \<open>int\<close>s, multiplied from left to right in
  32 bits; a negative \<open>n\<close> converts to a size beyond \<open>max_size()\<close> and the constructor
  throws. Memory for a vector of any other size is taken to be available.
\<close>

definition forward_pre_calc :: "ROIAlign \<Rightarrow> Mat \<Rightarrow> real list \<Rightarrow> error + PreCalc list" where
  "forward_pre_calc layer bottom_blob roi_ptr =
     (let n = int32 (int32 (int32 (roi_bin_grid_h layer roi_ptr * roi_bin_grid_w layer roi_ptr)
                               * pooled_width layer)
                        * pooled_height layer)
      in if n < 0 then Inl LengthError
         else
           pre_calc_for_bilinear_interpolate (mat_h bottom_blob) (mat_w bottom_blob)
             (pooled_height layer) (pooled_width layer)
             (roi_bin_grid_h layer roi_ptr) (roi_bin_grid_w layer roi_ptr)
             (roi_start_h layer roi_ptr) (roi_start_w layer roi_ptr)
             (bin_size_h layer roi_ptr) (bin_size_w layer roi_ptr)
             (roi_bin_grid_h layer roi_ptr) (roi_bin_grid_w layer roi_ptr)
             (replicate (nat n) zero_PreCalc))"

text \<open>
  \<open>created\<close> is what \<open>top_blob.create\<close> leaves behind: \<open>None\<close> when the blob is empty
  (line 161), otherwise the freshly allocated channel buffers with whatever they hold.
  The four reads of \<open>roi_ptr\<close> (lines 168-171) are checked once, before the derived
  quantities use them.
\<close>

definition forward ::
  "ROIAlign \<Rightarrow> Mat \<Rightarrow> real list \<Rightarrow> real list list option \<Rightarrow> error + real list list" where
  "forward layer bottom_blob roi_ptr created =
     (let channels = mat_c bottom_blob
      in case created of
           None \<Rightarrow> Inl AllocFailed
         | Some top_blob \<Rightarrow>
             if length roi_ptr < 4 then Inl (OutOfBounds RoiBlob)
             else
               and_then (forward_pre_calc layer bottom_blob roi_ptr)
                 (\<lambda>pre_calc.
                    for_range channels
                      (forward_channel (pooled_height layer) (pooled_width layer)
                         (roi_bin_grid_h layer roi_ptr) (roi_bin_grid_w layer roi_ptr)
                         (count layer roi_ptr) pre_calc bottom_blob)
                      top_blob))"

subsection \<open>The forward pass on a ROI that holds a NaN\<close>

text \<open>
  An element of the ROI buffer is a \<open>float\<close>, which can be a NaN. A NaN coordinate makes
  every quantity derived from it a NaN (also \<open>std::max(roi_width, 1.f)\<close>, which returns its
  first argument unless it is less than the second, and \<open>pw * bin_size_w\<close> at \<open>pw = 0\<close>), so
  that all sample coordinates along an axis are NaN as soon as one of the two ROI
  coordinates of that axis is.
\<close>

datatype fp = Finite real | NaN

definition finite_part :: "fp \<Rightarrow> real" where
  "finite_part a = (case a of Finite r \<Rightarrow> r | NaN \<Rightarrow> 0)"

text \<open>The comparisons \<open>a < b\<close> and \<open>a > b\<close> of a \<open>float\<close>: false when it is a NaN.\<close>

definition fp_less :: "fp \<Rightarrow> real \<Rightarrow> bool" where
  "fp_less a b = (case a of Finite r \<Rightarrow> r < b | NaN \<Rightarrow> False)"

definition fp_greater :: "fp \<Rightarrow> real \<Rightarrow> bool" where
  "fp_greater a b = (case a of Finite r \<Rightarrow> r > b | NaN \<Rightarrow> False)"

text \<open>
  Lines 64-123 for a sample point whose coordinates may be NaN. The test of line 67 is
  false for a NaN, so is \<open>y <= 0\<close> at lines 83 and 86, and the casts of lines 90-91 then
  convert a NaN to \<open>int\<close>, which is undefined (compiled for x86-64 the cast yields
  \<open>INT_MIN\<close>).
\<close>

definition bilinear_stencil_nan :: "int \<Rightarrow> int \<Rightarrow> fp \<Rightarrow> fp \<Rightarrow> error + PreCalc" where
  "bilinear_stencil_nan height width yy xx =
     (if fp_less yy (- 1) \<or> fp_greater yy (real_of_int height)
           \<or> fp_less xx (- 1) \<or> fp_greater xx (real_of_int width)
      then Inr \<lparr>pos1 = 0, pos2 = 0, pos3 = 0, pos4 = 0, w1 = 0, w2 = 0, w3 = 0, w4 = 0\<rparr>
      else
        case (yy, xx) of
          (Finite y, Finite x) \<Rightarrow> Inr (bilinear_stencil height width y x)
        | _ \<Rightarrow> Inl UndefinedCast)"

text \<open>The builder (lines 52-130), \<open>nan_h\<close> and \<open>nan_w\<close> telling which axes are NaN.\<close>

definition pre_calc_ix_nan ::
  "int \<Rightarrow> int \<Rightarrow> bool \<Rightarrow> real \<Rightarrow> real \<Rightarrow> int \<Rightarrow> nat \<Rightarrow> fp \<Rightarrow> nat \<Rightarrow>
   int \<times> PreCalc list \<Rightarrow> error + int \<times> PreCalc list" where
  "pre_calc_ix_nan height width nan_w start_w bsize_w grid_w pw yy ix =
     (\<lambda>(pre_calc_index, pre_calc).
        let xx = (if nan_w then NaN else Finite (sample_x start_w bsize_w grid_w pw ix)) in
        and_then (bilinear_stencil_nan height width yy xx) (\<lambda>pc.
        and_then (store StencilVector pre_calc pre_calc_index pc) (\<lambda>pre_calc'.
          Inr (pre_calc_index + 1, pre_calc'))))"

definition pre_calc_iy_nan ::
  "int \<Rightarrow> int \<Rightarrow> int \<Rightarrow> bool \<Rightarrow> bool \<Rightarrow> real \<Rightarrow> real \<Rightarrow> real \<Rightarrow> real \<Rightarrow> int \<Rightarrow> int \<Rightarrow>
   nat \<Rightarrow> nat \<Rightarrow> nat \<Rightarrow> int \<times> PreCalc list \<Rightarrow> error + int \<times> PreCalc list" where
  "pre_calc_iy_nan height width ix_upper nan_h nan_w start_h start_w bsize_h bsize_w
       grid_h grid_w ph pw iy =
     (let yy = (if nan_h then NaN else Finite (sample_y start_h bsize_h grid_h ph iy)) in
      for_range ix_upper (pre_calc_ix_nan height width nan_w start_w bsize_w grid_w pw yy))"

definition pre_calc_nan ::
  "int \<Rightarrow> int \<Rightarrow> int \<Rightarrow> int \<Rightarrow> int \<Rightarrow> int \<Rightarrow> bool \<Rightarrow> bool \<Rightarrow> real \<Rightarrow> real \<Rightarrow> real \<Rightarrow> real \<Rightarrow>
   int \<Rightarrow> int \<Rightarrow> PreCalc list \<Rightarrow> error + PreCalc list" where
  "pre_calc_nan height width p_height p_width iy_upper ix_upper nan_h nan_w
       start_h start_w bsize_h bsize_w grid_h grid_w pre_calc =
     and_then
       (for_range p_height (\<lambda>ph.
          for_range p_width (\<lambda>pw.
            for_range iy_upper
              (pre_calc_iy_nan height width ix_upper nan_h nan_w start_h start_w
                 bsize_h bsize_w grid_h grid_w ph pw)))
          (0, pre_calc))
       (\<lambda>(pre_calc_index, pre_calc'). Inr pre_calc')"

text \<open>
  The forward pass on a ROI buffer of \<open>float\<close>s. Without a NaN among the four coordinates
  it is \<open>forward\<close>. With one, the adaptive grid size of lines 184-187 is the cast of a NaN;
  with a configured \<open>sampling_ratio\<close> the grid sizes, the divisor and the vector are as in
  \<open>forward\<close>, and the builder meets the NaN samples. The quantities of the axis that is
  not NaN are those of \<open>forward\<close> (they read only the two coordinates of their axis).
\<close>

definition forward_nan ::
  "ROIAlign \<Rightarrow> Mat \<Rightarrow> fp list \<Rightarrow> real list list option \<Rightarrow> error + real list list" where
  "forward_nan layer bottom_blob roi_ptr created =
     (case created of
        None \<Rightarrow> Inl AllocFailed
      | Some top_blob \<Rightarrow>
          if length roi_ptr < 4 then Inl (OutOfBounds RoiBlob)
          else
            let nan_w = (roi_ptr ! 0 = NaN \<or> roi_ptr ! 2 = NaN);
                nan_h = (roi_ptr ! 1 = NaN \<or> roi_ptr ! 3 = NaN);
                roi = map finite_part roi_ptr
            in if \<not> nan_w \<and> \<not> nan_h then forward layer bottom_blob roi (Some top_blob)
               else if \<not> sampling_ratio layer > 0 then Inl UndefinedCast
               else
                 let n = int32 (int32 (int32 (roi_bin_grid_h layer roi * roi_bin_grid_w layer roi)
                                         * pooled_width layer)
                                  * pooled_height layer)
                 in if n < 0 then Inl LengthError
                    else
                      and_then
                        (pre_calc_nan (mat_h bottom_blob) (mat_w bottom_blob)
                           (pooled_height layer) (pooled_width layer)
                           (roi_bin_grid_h layer roi) (roi_bin_grid_w layer roi) nan_h nan_w
                           (roi_start_h layer roi) (roi_start_w layer roi)
                           (bin_size_h layer roi) (bin_size_w layer roi)
                           (roi_bin_grid_h layer roi) (roi_bin_grid_w layer roi)
                           (replicate (nat n) zero_PreCalc))
                        (\<lambda>pre_calc.
                           for_range (mat_c bottom_blob)
                             (forward_channel (pooled_height layer) (pooled_width layer)
                                (roi_bin_grid_h layer roi) (roi_bin_grid_w layer roi)
                                (count layer roi) pre_calc bottom_blob)
                             top_blob))"

subsection \<open>Closed forms used in the proofs\<close>

text \<open>
  The stencil that the builder stores at the flat position \<open>k\<close> of the vector: position
  \<open>k\<close> belongs to the loop counters \<open>ph\<close>, \<open>pw\<close>, \<open>iy\<close>, \<open>ix\<close> with
  \<open>k = ((ph * pooled_width + pw) * iy_upper + iy) * ix_upper + ix\<close>.
\<close>

definition plan_entry ::
  "int \<Rightarrow> int \<Rightarrow> int \<Rightarrow> int \<Rightarrow> int \<Rightarrow> real \<Rightarrow> real \<Rightarrow> real \<Rightarrow> real \<Rightarrow> int \<Rightarrow> int \<Rightarrow> nat \<Rightarrow> PreCalc" where
  "plan_entry height width p_width iy_upper ix_upper start_h start_w bsize_h bsize_w grid_h grid_w k =
     bilinear_stencil height width
       (sample_y start_h bsize_h grid_h
          (k div (nat ix_upper * nat iy_upper * nat p_width))
          ((k div nat ix_upper) mod nat iy_upper))
       (sample_x start_w bsize_w grid_w
          ((k div (nat ix_upper * nat iy_upper)) mod nat p_width)
          (k mod nat ix_upper))"

text \<open>
  The summand of lines 227-229 and the value of an output cell when every read is inside
  the channel buffer: cell \<open>n = ph * pooled_width + pw\<close> consumes the stencils at the
  positions \<open>n * (roi_bin_grid_h * roi_bin_grid_w)\<close> and following.
\<close>

definition in_bounds :: "real list \<Rightarrow> PreCalc \<Rightarrow> bool" where
  "in_bounds ptr pc \<longleftrightarrow>
     (\<forall>p \<in> {pos1 pc, pos2 pc, pos3 pc, pos4 pc}. 0 \<le> p \<and> p < int (length ptr))"

definition stencil_value :: "real list \<Rightarrow> PreCalc \<Rightarrow> real" where
  "stencil_value ptr pc =
     w1 pc * ptr ! nat (pos1 pc) + w2 pc * ptr ! nat (pos2 pc)
       + w3 pc * ptr ! nat (pos3 pc) + w4 pc * ptr ! nat (pos4 pc)"

definition cell_value :: "int \<Rightarrow> int \<Rightarrow> real \<Rightarrow> PreCalc list \<Rightarrow> real list \<Rightarrow> nat \<Rightarrow> real" where
  "cell_value grid_h grid_w cnt pre_calc ptr n =
     (\<Sum>k = n * (nat grid_h * nat grid_w)..<Suc n * (nat grid_h * nat grid_w).
        stencil_value ptr (pre_calc ! k)) / cnt"

text \<open>
  What the forward pass takes for granted about its inputs: positive pooled sizes, a
  feature map of at least one pixel whose \<open>c\<close> channel buffers hold \<open>w * h\<close> elements
  each, four ROI coordinates, and an output blob of the shape asked of \<open>create\<close>.
\<close>

definition well_formed :: "ROIAlign \<Rightarrow> Mat \<Rightarrow> real list \<Rightarrow> real list list \<Rightarrow> bool" where
  "well_formed layer bottom_blob roi_ptr top_blob \<longleftrightarrow>
     0 < pooled_width layer \<and> 0 < pooled_height layer \<and>
     1 \<le> mat_w bottom_blob \<and> 1 \<le> mat_h bottom_blob \<and> 0 \<le> mat_c bottom_blob \<and>
     length (mat_data bottom_blob) = nat (mat_c bottom_blob) \<and>
     (\<forall>ch \<in> set (mat_data bottom_blob).
        length ch = nat (mat_w bottom_blob * mat_h bottom_blob)) \<and>
     4 \<le> length roi_ptr \<and>
     length top_blob = nat (mat_c bottom_blob) \<and>
     (\<forall>ch \<in> set top_blob. length ch = nat (pooled_width layer * pooled_height layer))"

text \<open>The contents of the stencil vector after the builder has run in the forward pass.\<close>

definition forward_plan :: "ROIAlign \<Rightarrow> Mat \<Rightarrow> real list \<Rightarrow> PreCalc list" where
  "forward_plan layer bottom_blob roi_ptr =
     map (plan_entry (mat_h bottom_blob) (mat_w bottom_blob) (pooled_width layer)
            (roi_bin_grid_h layer roi_ptr) (roi_bin_grid_w layer roi_ptr)
            (roi_start_h layer roi_ptr) (roi_start_w layer roi_ptr)
            (bin_size_h layer roi_ptr) (bin_size_w layer roi_ptr)
            (roi_bin_grid_h layer roi_ptr) (roi_bin_grid_w layer roi_ptr))
       [0..<nat (pooled_height layer) * nat (pooled_width layer)
              * nat (roi_bin_grid_h layer roi_ptr) * nat (roi_bin_grid_w layer roi_ptr)]
     @ replicate
         (nat (roi_bin_grid_h layer roi_ptr * roi_bin_grid_w layer roi_ptr
                 * pooled_width layer * pooled_height layer)
          - nat (pooled_height layer) * nat (pooled_width layer)
              * nat (roi_bin_grid_h layer roi_ptr) * nat (roi_bin_grid_w layer roi_ptr))
         zero_PreCalc"

text \<open>The output blob of a successful forward pass, channel by channel, cell by cell.\<close>

definition forward_output :: "ROIAlign \<Rightarrow> Mat \<Rightarrow> real list \<Rightarrow> real list list" where
  "forward_output layer bottom_blob roi_ptr =
     map (\<lambda>q. map (cell_value (roi_bin_grid_h layer roi_ptr) (roi_bin_grid_w layer roi_ptr)
                     (count layer roi_ptr) (forward_plan layer bottom_blob roi_ptr)
                     (mat_data bottom_blob ! q))
                [0..<nat (pooled_height layer) * nat (pooled_width layer)])
       [0..<nat (mat_c bottom_blob)]"


text \<open>The invariant of the builder's loops: every stencil in the vector is in bounds.\<close>

definition all_in_bounds :: "real list \<Rightarrow> int \<times> PreCalc list \<Rightarrow> bool" where
  "all_in_bounds ptr s \<longleftrightarrow> (\<forall>pc \<in> set (snd s). in_bounds ptr pc)"

subsection \<open>A concrete call\<close>

text \<open>
  A 4 by 4 feature map of one channel whose pixels hold their row number, pooled to 2 by 2
  cells with 2 by 2 samples each over the ROI \<open>(0, 0, 4, 4)\<close>; the output blob arrives
  holding arbitrary values.
\<close>

definition example_layer :: ROIAlign where
  "example_layer =
     \<lparr>pooled_width = 2, pooled_height = 2, spatial_scale = 1, sampling_ratio = 2,
      aligned = True\<rparr>"

definition example_blob :: Mat where
  "example_blob =
     \<lparr>mat_w = 4, mat_h = 4, mat_c = 1,
      mat_data = [[0, 0, 0, 0, 1, 1, 1, 1, 2, 2, 2, 2, 3, 3, 3, 3]]\<rparr>"

definition example_roi :: "real list" where
  "example_roi = [0, 0, 4, 4]"

definition example_top :: "real list list" where
  "example_top = [[9, 9, 9, 9]]"




text \<open>
  Two layers with the adaptive sampling density (\<open>sampling_ratio = 0\<close>): one pooling
  to a single cell, one pooling to 2 by 2 cells.
\<close>

definition adaptive_layer1 :: ROIAlign where
  "adaptive_layer1 =
     \<lparr>pooled_width = 1, pooled_height = 1, spatial_scale = 1, sampling_ratio = 0,
      aligned = True\<rparr>"

definition adaptive_layer2 :: ROIAlign where
  "adaptive_layer2 =
     \<lparr>pooled_width = 2, pooled_height = 2, spatial_scale = 1, sampling_ratio = 0,
      aligned = True\<rparr>"

section \<open>Proofs\<close>

subsection \<open>Sequencing and counting loops\<close>


lemma and_then_Inr: "and_then (Inr x) f = f x"
  by (simp add: and_then_def)

lemma and_then_Inl: "and_then (Inl e) f = Inl e"
  by (simp add: and_then_def)

lemma for_loop_append:
  "for_loop (xs @ ys) body s = and_then (for_loop xs body s) (for_loop ys body)"
proof (induction xs arbitrary: s)
  case Nil
  show ?case by (simp add: and_then_Inr)
next
  case (Cons i xs)
  show ?case
  proof (cases "body i s")
    case (Inl e)
    then show ?thesis by (simp add: and_then_Inl)
  next
    case (Inr s')
    then show ?thesis by (simp add: and_then_Inr Cons.IH)
  qed
qed

lemma for_loop_upt_exact:
  assumes "\<And>i. i < n \<Longrightarrow> body i (F i) = Inr (F (Suc i))"
  shows "for_loop [0..<n] body (F 0) = Inr (F n)"
  using assms
proof (induction n)
  case 0
  show ?case by simp
next
  case (Suc n)
  have "for_loop [0..<n] body (F 0) = Inr (F n)"
    using Suc by simp
  moreover have "body n (F n) = Inr (F (Suc n))"
    using Suc.prems by simp
  ultimately show ?case
    by (simp add: for_loop_append and_then_Inr)
qed

lemma for_range_exact:
  assumes "\<And>i. i < nat n \<Longrightarrow> body i (F i) = Inr (F (Suc i))"
  shows "for_range n body (F 0) = Inr (F (nat n))"
  unfolding for_range_def using assms by (rule for_loop_upt_exact)

lemma flat_index_less:
  fixes x y :: nat
  assumes "x < X" "y < Y"
  shows "x * Y + y < X * Y"
proof -
  have "x * Y + y < x * Y + Y" using assms by simp
  also have "\<dots> = Suc x * Y" by simp
  also have "\<dots> \<le> X * Y" using assms by (intro mult_le_mono1) simp
  finally show ?thesis .
qed

lemma flat_index4_less:
  fixes a b c d :: nat
  assumes "a < A" "b < B" "c < C" "d < D"
  shows "((a * B + b) * C + c) * D + d < A * B * C * D"
  using assms by (intro flat_index_less)

lemma flat_index4_decode:
  fixes a b c d :: nat
  assumes "b < B" "c < C" "d < D"
  defines "k \<equiv> ((a * B + b) * C + c) * D + d"
  shows "k mod D = d" "(k div D) mod C = c" "(k div (D * C)) mod B = b" "k div (D * C * B) = a"
proof -
  have 1: "k div D = (a * B + b) * C + c" using assms by simp
  have 2: "k div (D * C) = a * B + b" using assms by (simp add: div_mult2_eq)
  show "k mod D = d" using assms by simp
  show "(k div D) mod C = c" using 1 assms by simp
  show "(k div (D * C)) mod B = b" using 2 assms by simp
  show "k div (D * C * B) = a" using assms by (simp add: div_mult2_eq)
qed

lemma store_next:
  assumes "k < length vec0"
  shows "store b (map g [0..<k] @ drop k vec0) (int k) (g k)
         = Inr (map g [0..<Suc k] @ drop (Suc k) vec0)"
proof -
  have "drop k vec0 = vec0 ! k # drop (Suc k) vec0"
    using assms by (simp add: Cons_nth_drop_Suc)
  then have "(map g [0..<k] @ drop k vec0)[k := g k] = map g [0..<Suc k] @ drop (Suc k) vec0"
    by (simp add: list_update_append)
  then show ?thesis using assms by (simp add: store_def)
qed


subsection \<open>The sampling plan in closed form\<close>

text \<open>Four nested counting loops that store one element per innermost iteration.\<close>

lemma nest_store:
  fixes f :: "nat \<Rightarrow> nat \<Rightarrow> nat \<Rightarrow> nat \<Rightarrow> 'a"
  defines "g \<equiv> \<lambda>B C D k. f (k div (D * C * B)) ((k div (D * C)) mod B) ((k div D) mod C) (k mod D)"
  assumes len: "A * B * C * D \<le> length vec0"
  shows "for_loop [0..<A] (\<lambda>a. for_loop [0..<B] (\<lambda>b. for_loop [0..<C] (\<lambda>c.
           for_loop [0..<D] (\<lambda>d (idx, vec).
             and_then (store buf vec idx (f a b c d)) (\<lambda>vec'. Inr (idx + 1, vec'))))))
           (0, vec0)
         = Inr (int (A * B * C * D), map (g B C D) [0..<A * B * C * D] @ drop (A * B * C * D) vec0)"
proof -
  define G where "G k = (int k, map (g B C D) [0..<k] @ drop k vec0)" for k
  let ?body = "\<lambda>a b c d (idx, vec).
             and_then (store buf vec idx (f a b c d)) (\<lambda>vec'. Inr (idx + 1, vec'))"
  have step: "?body a b c d (G (((a * B + b) * C + c) * D + d))
              = Inr (G (Suc (((a * B + b) * C + c) * D + d)))"
    if "a < A" "b < B" "c < C" "d < D" for a b c d
  proof -
    let ?k = "((a * B + b) * C + c) * D + d"
    have "?k < A * B * C * D" using that by (rule flat_index4_less)
    then have k: "?k < length vec0" using len by simp
    have gk: "g B C D ?k = f a b c d"
      unfolding g_def using flat_index4_decode[OF that(2,3,4), of a] by simp
    show ?thesis
      unfolding G_def using store_next[OF k, of buf "g B C D"]
      by (simp add: gk and_then_Inr del: upt_Suc)
  qed
  have loop_d: "for_loop [0..<D] (?body a b c) (G (((a * B + b) * C + c) * D))
                = Inr (G (((a * B + b) * C + Suc c) * D))"
    if "a < A" "b < B" "c < C" for a b c
  proof -
    have "for_loop [0..<D] (?body a b c) (G (((a * B + b) * C + c) * D + 0))
          = Inr (G (((a * B + b) * C + c) * D + D))"
      by (rule for_loop_upt_exact[where F = "\<lambda>d. G (((a * B + b) * C + c) * D + d)"])
         (use step[OF that] in simp)
    then show ?thesis by (simp add: algebra_simps)
  qed
  have loop_c: "for_loop [0..<C] (\<lambda>c. for_loop [0..<D] (?body a b c)) (G ((a * B + b) * C * D))
                = Inr (G ((a * B + Suc b) * C * D))"
    if "a < A" "b < B" for a b
  proof -
    have "for_loop [0..<C] (\<lambda>c. for_loop [0..<D] (?body a b c)) (G (((a * B + b) * C + 0) * D))
          = Inr (G (((a * B + b) * C + C) * D))"
      by (rule for_loop_upt_exact[where F = "\<lambda>c. G (((a * B + b) * C + c) * D)"])
         (use loop_d[OF that] in simp)
    then show ?thesis by (simp add: algebra_simps)
  qed
  have loop_b: "for_loop [0..<B] (\<lambda>b. for_loop [0..<C] (\<lambda>c. for_loop [0..<D] (?body a b c)))
                  (G (a * B * C * D))
                = Inr (G (Suc a * B * C * D))"
    if "a < A" for a
  proof -
    have "for_loop [0..<B] (\<lambda>b. for_loop [0..<C] (\<lambda>c. for_loop [0..<D] (?body a b c)))
            (G ((a * B + 0) * C * D))
          = Inr (G ((a * B + B) * C * D))"
      by (rule for_loop_upt_exact[where F = "\<lambda>b. G ((a * B + b) * C * D)"])
         (use loop_c[OF that] in simp)
    then show ?thesis by (simp add: algebra_simps)
  qed
  have "for_loop [0..<A] (\<lambda>a. for_loop [0..<B] (\<lambda>b. for_loop [0..<C] (\<lambda>c.
          for_loop [0..<D] (?body a b c)))) (G (0 * B * C * D))
        = Inr (G (A * B * C * D))"
    by (rule for_loop_upt_exact[where F = "\<lambda>a. G (a * B * C * D)"])
       (use loop_b in simp)
  then show ?thesis by (simp add: G_def)
qed


lemma for_range_eq: "for_range n body = for_loop [0..<nat n] body"
  by (rule ext) (simp add: for_range_def)


lemma pre_calc_exact:
  assumes "nat p_height * nat p_width * nat iy_upper * nat ix_upper \<le> length vec"
  shows "pre_calc_for_bilinear_interpolate height width p_height p_width iy_upper ix_upper
           start_h start_w bsize_h bsize_w grid_h grid_w vec
         = Inr (map (plan_entry height width p_width iy_upper ix_upper
                       start_h start_w bsize_h bsize_w grid_h grid_w)
                  [0..<nat p_height * nat p_width * nat iy_upper * nat ix_upper]
                @ drop (nat p_height * nat p_width * nat iy_upper * nat ix_upper) vec)"
proof -
  let ?f = "\<lambda>a b c d. bilinear_stencil height width
              (sample_y start_h bsize_h grid_h a c) (sample_x start_w bsize_w grid_w b d)"
  have pe: "plan_entry height width p_width iy_upper ix_upper
              start_h start_w bsize_h bsize_w grid_h grid_w
            = (\<lambda>k. ?f (k div (nat ix_upper * nat iy_upper * nat p_width))
                      ((k div (nat ix_upper * nat iy_upper)) mod nat p_width)
                      ((k div nat ix_upper) mod nat iy_upper) (k mod nat ix_upper))"
    by (rule ext) (simp add: plan_entry_def)
  show ?thesis
    unfolding pre_calc_for_bilinear_interpolate_def pre_calc_iy_def pre_calc_ix_def
      for_range_eq Let_def pe
    using nest_store[OF assms, of StencilVector ?f]
    by (simp add: and_then_Inr)
qed


lemma plan_entry_flat:
  assumes "pw < nat p_width" "iy < nat iy_upper" "ix < nat ix_upper"
  shows "plan_entry height width p_width iy_upper ix_upper start_h start_w bsize_h bsize_w
           grid_h grid_w (((ph * nat p_width + pw) * nat iy_upper + iy) * nat ix_upper + ix)
         = bilinear_stencil height width (sample_y start_h bsize_h grid_h ph iy)
             (sample_x start_w bsize_w grid_w pw ix)"
  unfolding plan_entry_def using flat_index4_decode[OF assms, of ph] by simp

lemma nat_mult4:
  assumes "0 \<le> a" "0 \<le> b" "0 \<le> c" "0 \<le> d"
  shows "nat (a * b * c * d) = nat a * nat b * nat c * nat d"
  using assms by (simp add: nat_mult_distrib)

subsection \<open>Properties of one stencil\<close>

lemma bilinear_stencil_outside:
  assumes "y < - 1 \<or> y > real_of_int height \<or> x < - 1 \<or> x > real_of_int width"
  shows "bilinear_stencil height width y x = zero_PreCalc"
  using assms by (simp add: bilinear_stencil_def zero_PreCalc_def)

lemma bilinear_stencil_inside:
  assumes "\<not> (y < - 1 \<or> y > real_of_int height \<or> x < - 1 \<or> x > real_of_int width)"
  shows "bilinear_stencil height width y x =
           \<lparr>pos1 = low_index height y * width + low_index width x,
            pos2 = low_index height y * width + high_index width x,
            pos3 = high_index height y * width + low_index width x,
            pos4 = high_index height y * width + high_index width x,
            w1 = (1 - low_offset height y) * (1 - low_offset width x),
            w2 = (1 - low_offset height y) * low_offset width x,
            w3 = low_offset height y * (1 - low_offset width x),
            w4 = low_offset height y * low_offset width x\<rparr>"
  using assms
  by (simp add: bilinear_stencil_def low_index_def high_index_def low_offset_def Let_def)

lemma low_offset_range: "0 \<le> low_offset n v \<and> low_offset n v \<le> 1"
proof -
  have "0 \<le> r - real_of_int (trunc_int r) \<and> r - real_of_int (trunc_int r) \<le> 1"
    if "0 \<le> r" for r :: real
    using that by (simp add: trunc_int_def) linarith
  then show ?thesis
    by (simp add: low_offset_def Let_def)
qed

lemma index_range:
  assumes "1 \<le> n"
  shows "0 \<le> low_index n v" "low_index n v \<le> high_index n v" "high_index n v \<le> n - 1"
proof -
  have t: "0 \<le> trunc_int (if v \<le> 0 then 0 else v)"
    by (simp add: trunc_int_def)
  show "0 \<le> low_index n v" using assms t by (simp add: low_index_def Let_def)
  show "low_index n v \<le> high_index n v" by (simp add: low_index_def high_index_def Let_def)
  show "high_index n v \<le> n - 1" by (simp add: high_index_def Let_def)
qed

lemma flat_offset_range:
  fixes i j :: int
  assumes "0 \<le> i" "i \<le> height - 1" "0 \<le> j" "j \<le> width - 1"
  shows "0 \<le> i * width + j" "i * width + j < height * width"
proof -
  have w: "0 \<le> width" using assms by simp
  show "0 \<le> i * width + j" using assms w by simp
  have "i * width \<le> (height - 1) * width"
    using assms(2) w by (rule mult_right_mono)
  then show "i * width + j < height * width"
    using assms(4) by (simp add: algebra_simps)
qed

lemma stencil_weights:
  assumes "\<not> (y < - 1 \<or> y > real_of_int height \<or> x < - 1 \<or> x > real_of_int width)"
  shows "0 \<le> w1 (bilinear_stencil height width y x)"
    "0 \<le> w2 (bilinear_stencil height width y x)"
    "0 \<le> w3 (bilinear_stencil height width y x)"
    "0 \<le> w4 (bilinear_stencil height width y x)"
    "w1 (bilinear_stencil height width y x) + w2 (bilinear_stencil height width y x)
     + w3 (bilinear_stencil height width y x) + w4 (bilinear_stencil height width y x) = 1"
proof -
  note ly = low_offset_range[of height y] and lx = low_offset_range[of width x]
  show "0 \<le> w1 (bilinear_stencil height width y x)"
    "0 \<le> w2 (bilinear_stencil height width y x)"
    "0 \<le> w3 (bilinear_stencil height width y x)"
    "0 \<le> w4 (bilinear_stencil height width y x)"
    unfolding bilinear_stencil_inside[OF assms] using ly lx by simp_all
  show "w1 (bilinear_stencil height width y x) + w2 (bilinear_stencil height width y x)
     + w3 (bilinear_stencil height width y x) + w4 (bilinear_stencil height width y x) = 1"
    unfolding bilinear_stencil_inside[OF assms] by (simp add: algebra_simps)
qed

lemma stencil_clamped:
  assumes "\<not> (y < - 1 \<or> y > real_of_int height \<or> x < - 1 \<or> x > real_of_int width)"
    and "0 \<le> height" "0 \<le> width"
  shows "bilinear_stencil height width y x = bilinear_stencil height width (max y 0) (max x 0)"
proof -
  have in': "\<not> (max y 0 < - 1 \<or> max y 0 > real_of_int height
               \<or> max x 0 < - 1 \<or> max x 0 > real_of_int width)"
    using assms by (simp add: max_def)
  have "low_index n (max v 0) = low_index n v" "high_index n (max v 0) = high_index n v"
    "low_offset n (max v 0) = low_offset n v" for n v
    by (simp_all add: low_index_def high_index_def low_offset_def max_def)
  then show ?thesis
    unfolding bilinear_stencil_inside[OF assms(1)] bilinear_stencil_inside[OF in'] by simp
qed

subsection \<open>The reduction in closed form\<close>

lemma update_next:
  assumes "k < length vec0"
  shows "(map g [0..<k] @ drop k vec0)[k := g k] = map g [0..<Suc k] @ drop (Suc k) vec0"
proof -
  have "drop k vec0 = vec0 ! k # drop (Suc k) vec0"
    using assms by (simp add: Cons_nth_drop_Suc)
  then show ?thesis
    by (simp add: list_update_append)
qed

lemma stencil_term_in_bounds:
  assumes "in_bounds ptr pc"
  shows "stencil_term ptr pc = Inr (stencil_value ptr pc)"
  using assms
  by (simp add: in_bounds_def stencil_term_def stencil_value_def load_def and_then_Inr)

lemma accumulate_exact:
  assumes "k < length pre_calc" "in_bounds ptr (pre_calc ! k)"
  shows "accumulate pre_calc ptr ix (int k, acc)
         = Inr (int (Suc k), acc + stencil_value ptr (pre_calc ! k))"
  using assms
  by (simp add: accumulate_def load_def and_then_Inr stencil_term_in_bounds)

lemma cell_sum_exact:
  assumes len: "k0 + C * D \<le> length pre_calc"
    and ok: "\<And>k. k < k0 + C * D \<Longrightarrow> in_bounds ptr (pre_calc ! k)"
  shows "for_loop [0..<C] (\<lambda>iy. for_loop [0..<D] (accumulate pre_calc ptr)) (int k0, acc)
         = Inr (int (k0 + C * D),
                acc + (\<Sum>k = k0..<k0 + C * D. stencil_value ptr (pre_calc ! k)))"
proof -
  let ?t = "\<lambda>k. stencil_value ptr (pre_calc ! k)"
  define F where "F j = (int (k0 + j), acc + sum ?t {k0..<k0 + j})" for j
  have step: "accumulate pre_calc ptr d (F (c * D + d)) = Inr (F (Suc (c * D + d)))"
    if "c < C" "d < D" for c d
  proof -
    have "c * D + d < C * D" using that by (rule flat_index_less)
    then have k: "k0 + (c * D + d) < k0 + C * D" by simp
    then have "k0 + (c * D + d) < length pre_calc" using len by simp
    then show ?thesis
      unfolding F_def using accumulate_exact[OF _ ok[OF k]] by simp
  qed
  have inner: "for_loop [0..<D] (accumulate pre_calc ptr) (F (c * D)) = Inr (F (Suc c * D))"
    if "c < C" for c
  proof -
    have "for_loop [0..<D] (accumulate pre_calc ptr) (F (c * D + 0)) = Inr (F (c * D + D))"
      by (rule for_loop_upt_exact[where F = "\<lambda>d. F (c * D + d)"])
         (use step[OF that] in simp)
    then show ?thesis by (simp add: algebra_simps)
  qed
  have "for_loop [0..<C] (\<lambda>iy. for_loop [0..<D] (accumulate pre_calc ptr)) (F (0 * D))
        = Inr (F (C * D))"
    by (rule for_loop_upt_exact[where F = "\<lambda>c. F (c * D)"]) (use inner in simp)
  then show ?thesis by (simp add: F_def)
qed

lemma pool_cell_exact:
  fixes grid_h grid_w :: int
  defines "G \<equiv> nat grid_h * nat grid_w"
  assumes n: "n < length out0"
    and len: "Suc n * G \<le> length pre_calc"
    and ok: "\<And>k. k < Suc n * G \<Longrightarrow> in_bounds ptr (pre_calc ! k)"
    and at: "outptr + int pw = int n"
  shows "pool_cell grid_h grid_w cnt pre_calc ptr outptr pw
           (int (n * G), map (cell_value grid_h grid_w cnt pre_calc ptr) [0..<n] @ drop n out0)
         = Inr (int (Suc n * G),
                map (cell_value grid_h grid_w cnt pre_calc ptr) [0..<Suc n] @ drop (Suc n) out0)"
proof -
  let ?out = "map (cell_value grid_h grid_w cnt pre_calc ptr) [0..<n] @ drop n out0"
  have "for_loop [0..<nat grid_h] (\<lambda>iy. for_loop [0..<nat grid_w] (accumulate pre_calc ptr))
               (int (n * G), 0)
             = Inr (int (n * G + G),
                    0 + (\<Sum>k = n * G..<n * G + G. stencil_value ptr (pre_calc ! k)))"
    unfolding G_def
    by (rule cell_sum_exact) (use len ok in \<open>simp_all add: G_def\<close>)
  then have sum: "for_loop [0..<nat grid_h]
                    (\<lambda>iy. for_loop [0..<nat grid_w] (accumulate pre_calc ptr)) (int (n * G), 0)
                  = Inr (int (Suc n * G),
                         \<Sum>k = n * G..<Suc n * G. stencil_value ptr (pre_calc ! k))"
    by (simp add: add.commute)
  have val: "(\<Sum>k = n * G..<Suc n * G. stencil_value ptr (pre_calc ! k)) / cnt
             = cell_value grid_h grid_w cnt pre_calc ptr n"
    by (simp add: cell_value_def G_def)
  have "pool_cell grid_h grid_w cnt pre_calc ptr outptr pw (int (n * G), ?out)
        = and_then
            (for_loop [0..<nat grid_h] (\<lambda>iy. for_loop [0..<nat grid_w] (accumulate pre_calc ptr))
               (int (n * G), 0))
            (\<lambda>(pre_calc_index', output_val).
               and_then (store OutputBlob ?out (outptr + int pw) (output_val / cnt))
                 (\<lambda>out'. Inr (pre_calc_index', out')))"
    by (simp add: pool_cell_def for_range_eq)
  also have "\<dots> = and_then
                      (store OutputBlob ?out (int n) (cell_value grid_h grid_w cnt pre_calc ptr n))
                      (\<lambda>out'. Inr (int (Suc n * G), out'))"
    by (simp only: sum and_then_Inr prod.case at val)
  also have "\<dots> = Inr (int (Suc n * G),
                map (cell_value grid_h grid_w cnt pre_calc ptr) [0..<Suc n] @ drop (Suc n) out0)"
    by (simp only: store_next[OF n] and_then_Inr)
  finally show ?thesis .
qed


lemma pool_row_exact:
  fixes grid_h grid_w p_width :: int
  defines "G \<equiv> nat grid_h * nat grid_w" and "B \<equiv> nat p_width"
  assumes pw: "0 \<le> p_width"
    and out: "Suc ph * B \<le> length out0"
    and len: "Suc ph * B * G \<le> length pre_calc"
    and ok: "\<And>k. k < Suc ph * B * G \<Longrightarrow> in_bounds ptr (pre_calc ! k)"
  shows "pool_row p_width grid_h grid_w cnt pre_calc ptr ph
           (int (ph * B * G), int (ph * B),
            map (cell_value grid_h grid_w cnt pre_calc ptr) [0..<ph * B] @ drop (ph * B) out0)
         = Inr (int (Suc ph * B * G), int (Suc ph * B),
                map (cell_value grid_h grid_w cnt pre_calc ptr) [0..<Suc ph * B]
                  @ drop (Suc ph * B) out0)"
proof -
  define F where
    "F n = (int (n * G), map (cell_value grid_h grid_w cnt pre_calc ptr) [0..<n] @ drop n out0)"
    for n
  have step: "pool_cell grid_h grid_w cnt pre_calc ptr (int (ph * B)) j (F (ph * B + j))
              = Inr (F (Suc (ph * B + j)))" if "j < B" for j
  proof -
    have n: "Suc (ph * B + j) \<le> Suc ph * B" using that by simp
    then have n_out: "ph * B + j < length out0" using out by simp
    have le: "Suc (ph * B + j) * G \<le> Suc ph * B * G"
      using n by (rule mult_le_mono1)
    have n_len: "Suc (ph * B + j) * G \<le> length pre_calc"
      using le len by (rule le_trans)
    have n_ok: "in_bounds ptr (pre_calc ! k)" if "k < Suc (ph * B + j) * G" for k
      using less_le_trans[OF that le] by (rule ok)
    have at: "int (ph * B) + int j = int (ph * B + j)" by simp
    show ?thesis
      unfolding F_def G_def
      by (rule pool_cell_exact[OF n_out n_len[unfolded G_def] n_ok[unfolded G_def] at])
  qed
  have "for_loop [0..<B] (pool_cell grid_h grid_w cnt pre_calc ptr (int (ph * B))) (F (ph * B + 0))
        = Inr (F (ph * B + B))"
    by (rule for_loop_upt_exact[where F = "\<lambda>j. F (ph * B + j)"]) (use step in simp)
  then have cells: "for_loop [0..<nat p_width]
                      (pool_cell grid_h grid_w cnt pre_calc ptr (int (ph * B))) (F (ph * B))
                    = Inr (F (Suc ph * B))"
    by (simp add: add.commute B_def)
  have next_row: "int (ph * B) + p_width = int (Suc ph * B)"
    using pw by (simp add: B_def)
  have "pool_row p_width grid_h grid_w cnt pre_calc ptr ph
          (int (ph * B * G), int (ph * B),
           map (cell_value grid_h grid_w cnt pre_calc ptr) [0..<ph * B] @ drop (ph * B) out0)
        = and_then
            (for_loop [0..<nat p_width]
               (pool_cell grid_h grid_w cnt pre_calc ptr (int (ph * B))) (F (ph * B)))
            (\<lambda>(pre_calc_index', out'). Inr (pre_calc_index', int (ph * B) + p_width, out'))"
    by (simp add: pool_row_def for_range_eq F_def)
  also have "\<dots> = Inr (int (Suc ph * B * G), int (Suc ph * B),
                map (cell_value grid_h grid_w cnt pre_calc ptr) [0..<Suc ph * B]
                  @ drop (Suc ph * B) out0)"
    by (simp only: cells and_then_Inr next_row) (simp only: F_def prod.case)
  finally show ?thesis .
qed

lemma pool_channel_exact:
  fixes grid_h grid_w p_width p_height :: int
  defines "G \<equiv> nat grid_h * nat grid_w" and "B \<equiv> nat p_width" and "A \<equiv> nat p_height"
  assumes pw: "0 \<le> p_width"
    and out: "A * B \<le> length out0"
    and len: "A * B * G \<le> length pre_calc"
    and ok: "\<And>k. k < A * B * G \<Longrightarrow> in_bounds ptr (pre_calc ! k)"
  shows "pool_channel p_height p_width grid_h grid_w cnt pre_calc ptr out0
         = Inr (map (cell_value grid_h grid_w cnt pre_calc ptr) [0..<A * B] @ drop (A * B) out0)"
proof -
  define F where
    "F i = (int (i * B * G), int (i * B),
            map (cell_value grid_h grid_w cnt pre_calc ptr) [0..<i * B] @ drop (i * B) out0)"
    for i
  have step: "pool_row p_width grid_h grid_w cnt pre_calc ptr i (F i) = Inr (F (Suc i))"
    if "i < A" for i
  proof -
    have i: "Suc i * B \<le> A * B" using that by (intro mult_le_mono1) simp
    then have i_out: "Suc i * B \<le> length out0" using out by simp
    have le: "Suc i * B * G \<le> A * B * G" using i by (rule mult_le_mono1)
    have i_len: "Suc i * B * G \<le> length pre_calc"
      using le len by (rule le_trans)
    have i_ok: "in_bounds ptr (pre_calc ! k)" if "k < Suc i * B * G" for k
      using less_le_trans[OF that le] by (rule ok)
    show ?thesis
      unfolding F_def G_def B_def
      by (rule pool_row_exact[OF pw i_out[unfolded B_def] i_len[unfolded G_def B_def]
            i_ok[unfolded G_def B_def]])
  qed
  have "for_loop [0..<A] (pool_row p_width grid_h grid_w cnt pre_calc ptr) (F 0) = Inr (F A)"
    by (rule for_loop_upt_exact) (use step in simp)
  then have rows: "for_loop [0..<nat p_height] (pool_row p_width grid_h grid_w cnt pre_calc ptr)
                     (0, 0, out0) = Inr (F A)"
    by (simp add: F_def A_def)
  show ?thesis
    by (simp add: pool_channel_def for_range_eq rows and_then_Inr F_def)
qed

subsection \<open>The forward pass in closed form\<close>

lemma nat_mult4_le:
  fixes a b c d :: int
  assumes "0 \<le> a * b * c * d"
  shows "nat d * nat c * nat a * nat b \<le> nat (a * b * c * d)"
proof (cases "0 < a \<and> 0 < b \<and> 0 < c \<and> 0 < d")
  case True
  then have "nat (a * b * c * d) = nat a * nat b * nat c * nat d"
    by (simp add: nat_mult_distrib)
  then show ?thesis by (simp add: mult_ac)
next
  case False
  then have "nat d * nat c * nat a * nat b = 0" by auto
  then show ?thesis by (simp only: le0)
qed

lemma int32_id:
  assumes "- 2147483648 \<le> x" "x \<le> 2147483647"
  shows "int32 x = x"
  using assms by (simp add: int32_def)

text \<open>A stencil count that fits in an \<open>int\<close> is computed without wrap-around.\<close>

lemma stencil_count_fits:
  fixes g p_width p_height :: int
  assumes "0 \<le> g" "0 < p_width" "0 < p_height" "g * p_width * p_height \<le> 2147483647"
  shows "int32 g = g" "int32 (int32 (int32 g * p_width) * p_height) = g * p_width * p_height"
proof -
  have "g * 1 \<le> g * p_width"
    using assms(1,2) by (intro mult_left_mono) simp_all
  then have a: "g \<le> g * p_width" by simp
  have b0: "0 \<le> g * p_width" using assms(1,2) by simp
  then have "g * p_width * 1 \<le> g * p_width * p_height"
    using assms(3) by (intro mult_left_mono) simp_all
  then have b: "g * p_width \<le> g * p_width * p_height" by simp
  have c0: "0 \<le> g * p_width * p_height" using b0 assms(3) by simp
  show g: "int32 g = g"
    using assms(1,4) a b by (intro int32_id) linarith+
  have gp: "int32 (g * p_width) = g * p_width"
    using assms(4) b b0 by (intro int32_id) linarith+
  have gpp: "int32 (g * p_width * p_height) = g * p_width * p_height"
    using assms(4) c0 by (intro int32_id) linarith+
  show "int32 (int32 (int32 g * p_width) * p_height) = g * p_width * p_height"
    by (simp only: g gp gpp)
qed

lemma forward_pre_calc_exact:
  assumes "0 \<le> roi_bin_grid_h layer roi_ptr * roi_bin_grid_w layer roi_ptr
             * pooled_width layer * pooled_height layer"
    and "int32 (int32 (int32 (roi_bin_grid_h layer roi_ptr * roi_bin_grid_w layer roi_ptr)
                         * pooled_width layer)
                  * pooled_height layer)
         = roi_bin_grid_h layer roi_ptr * roi_bin_grid_w layer roi_ptr
             * pooled_width layer * pooled_height layer"
  shows "forward_pre_calc layer bottom_blob roi_ptr = Inr (forward_plan layer bottom_blob roi_ptr)"
proof -
  let ?n = "roi_bin_grid_h layer roi_ptr * roi_bin_grid_w layer roi_ptr
              * pooled_width layer * pooled_height layer"
  let ?K = "nat (pooled_height layer) * nat (pooled_width layer)
              * nat (roi_bin_grid_h layer roi_ptr) * nat (roi_bin_grid_w layer roi_ptr)"
  have K: "?K \<le> nat ?n" using assms(1) by (rule nat_mult4_le)
  then have "?K \<le> length (replicate (nat ?n) zero_PreCalc)" by simp
  from pre_calc_exact[OF this] assms(1) show ?thesis
    unfolding forward_pre_calc_def Let_def assms(2) by (simp add: forward_plan_def)
qed


lemma in_bounds_zero:
  assumes "ptr \<noteq> []"
  shows "in_bounds ptr zero_PreCalc"
  using assms by (simp add: in_bounds_def zero_PreCalc_def)

lemma in_bounds_stencil:
  assumes "1 \<le> height" "1 \<le> width" "int (length ptr) = height * width"
  shows "in_bounds ptr (bilinear_stencil height width y x)"
proof (cases "y < - 1 \<or> y > real_of_int height \<or> x < - 1 \<or> x > real_of_int width")
  case True
  have "0 < height * width" using assms by simp
  then have "ptr \<noteq> []" using assms(3) by auto
  then show ?thesis
    using True by (simp add: bilinear_stencil_outside in_bounds_zero)
next
  case False
  note y = index_range[OF assms(1), of y] and x = index_range[OF assms(2), of x]
  have yl: "low_index height y \<le> height - 1" and xl: "low_index width x \<le> width - 1"
    and yh: "0 \<le> high_index height y" and xh: "0 \<le> high_index width x"
    using y x by linarith+
  show ?thesis
    unfolding bilinear_stencil_inside[OF False] in_bounds_def assms(3)
    using flat_offset_range[OF y(1) yl x(1) xl] flat_offset_range[OF y(1) yl xh x(3)]
      flat_offset_range[OF yh y(3) x(1) xl] flat_offset_range[OF yh y(3) xh x(3)]
    by simp
qed

lemma in_bounds_forward_plan:
  assumes "1 \<le> mat_h bottom_blob" "1 \<le> mat_w bottom_blob"
    and "int (length ptr) = mat_h bottom_blob * mat_w bottom_blob"
    and "k < length (forward_plan layer bottom_blob roi_ptr)"
  shows "in_bounds ptr (forward_plan layer bottom_blob roi_ptr ! k)"
proof -
  have "0 < mat_h bottom_blob * mat_w bottom_blob" using assms by simp
  then have ne: "ptr \<noteq> []" using assms(3) by auto
  have "pc \<in> set (forward_plan layer bottom_blob roi_ptr) \<Longrightarrow> in_bounds ptr pc" for pc
    unfolding forward_plan_def plan_entry_def
    using in_bounds_stencil[OF assms(1-3)] in_bounds_zero[OF ne] by auto
  then show ?thesis using assms(4) by simp
qed


lemma length_forward_plan:
  assumes "0 \<le> roi_bin_grid_h layer roi_ptr * roi_bin_grid_w layer roi_ptr
             * pooled_width layer * pooled_height layer"
  shows "length (forward_plan layer bottom_blob roi_ptr)
         = nat (roi_bin_grid_h layer roi_ptr * roi_bin_grid_w layer roi_ptr
                  * pooled_width layer * pooled_height layer)"
  using nat_mult4_le[OF assms] by (simp add: forward_plan_def)


lemma forward_channel_exact:
  assumes wf: "well_formed layer bottom_blob roi_ptr top_blob"
    and nn: "0 \<le> roi_bin_grid_h layer roi_ptr * roi_bin_grid_w layer roi_ptr"
    and q: "q < nat (mat_c bottom_blob)"
  shows "forward_channel (pooled_height layer) (pooled_width layer)
           (roi_bin_grid_h layer roi_ptr) (roi_bin_grid_w layer roi_ptr)
           (count layer roi_ptr) (forward_plan layer bottom_blob roi_ptr) bottom_blob q
           (map ((!) (forward_output layer bottom_blob roi_ptr)) [0..<q] @ drop q top_blob)
         = Inr (map ((!) (forward_output layer bottom_blob roi_ptr)) [0..<Suc q]
                  @ drop (Suc q) top_blob)"
proof -
  let ?plan = "forward_plan layer bottom_blob roi_ptr"
  let ?out = "forward_output layer bottom_blob roi_ptr"
  let ?top = "map ((!) ?out) [0..<q] @ drop q top_blob"
  let ?A = "nat (pooled_height layer)" and ?B = "nat (pooled_width layer)"
  let ?G = "nat (roi_bin_grid_h layer roi_ptr) * nat (roi_bin_grid_w layer roi_ptr)"
  have pos: "0 < pooled_width layer" "0 < pooled_height layer"
    and dims: "1 \<le> mat_w bottom_blob" "1 \<le> mat_h bottom_blob"
    and q_data: "q < length (mat_data bottom_blob)" and q_top: "q < length top_blob"
    using wf q by (simp_all add: well_formed_def)
  have "mat_data bottom_blob ! q \<in> set (mat_data bottom_blob)"
    using q_data by simp
  then have ptr: "int (length (mat_data bottom_blob ! q)) = mat_h bottom_blob * mat_w bottom_blob"
    using wf dims by (simp add: well_formed_def mult.commute)
  have "top_blob ! q \<in> set top_blob" using q_top by simp
  then have "length (top_blob ! q) = nat (pooled_width layer * pooled_height layer)"
    using wf by (simp add: well_formed_def)
  then have outlen: "length (top_blob ! q) = ?A * ?B"
    using pos by (simp add: nat_mult_distrib mult.commute)
  have n: "0 \<le> roi_bin_grid_h layer roi_ptr * roi_bin_grid_w layer roi_ptr
             * pooled_width layer * pooled_height layer"
    using nn pos by simp
  have len: "?A * ?B * ?G \<le> length ?plan"
    using nat_mult4_le[OF n] by (simp add: length_forward_plan[OF n] mult_ac)
  have ok: "in_bounds (mat_data bottom_blob ! q) (?plan ! k)" if "k < ?A * ?B * ?G" for k
    using in_bounds_forward_plan[OF dims(2) dims(1) ptr] that len by simp
  have chan: "pool_channel (pooled_height layer) (pooled_width layer)
                (roi_bin_grid_h layer roi_ptr) (roi_bin_grid_w layer roi_ptr)
                (count layer roi_ptr) ?plan (mat_data bottom_blob ! q) (top_blob ! q)
              = Inr (?out ! q)"
    using pool_channel_exact[of "pooled_width layer" "pooled_height layer" "top_blob ! q"
        "roi_bin_grid_h layer roi_ptr" "roi_bin_grid_w layer roi_ptr" ?plan
        "mat_data bottom_blob ! q" "count layer roi_ptr"] pos outlen len ok q
    by (simp add: forward_output_def)
  have l1: "load FeatureMap (mat_data bottom_blob) (int q) = Inr (mat_data bottom_blob ! q)"
    using q_data by (simp add: load_def)
  have l2: "load OutputBlob ?top (int q) = Inr (top_blob ! q)"
    using q_top by (simp add: load_def nth_append)
  have "forward_channel (pooled_height layer) (pooled_width layer)
           (roi_bin_grid_h layer roi_ptr) (roi_bin_grid_w layer roi_ptr)
           (count layer roi_ptr) ?plan bottom_blob q ?top
        = Inr (?top[q := ?out ! q])"
    by (simp only: forward_channel_def l1 l2 chan and_then_Inr)
  then show ?thesis
    using update_next[OF q_top, of "(!) ?out"] by simp
qed

lemma forward_exact:
  assumes wf: "well_formed layer bottom_blob roi_ptr top_blob"
    and nn: "0 \<le> roi_bin_grid_h layer roi_ptr * roi_bin_grid_w layer roi_ptr"
    and fit: "roi_bin_grid_h layer roi_ptr * roi_bin_grid_w layer roi_ptr
                * pooled_width layer * pooled_height layer \<le> 2147483647"
  shows "forward layer bottom_blob roi_ptr (Some top_blob)
         = Inr (forward_output layer bottom_blob roi_ptr)"
proof -
  let ?out = "forward_output layer bottom_blob roi_ptr"
  have pos: "0 < pooled_width layer" "0 < pooled_height layer"
    and roi: "\<not> length roi_ptr < 4" and top: "length top_blob = nat (mat_c bottom_blob)"
    using wf by (simp_all add: well_formed_def)
  have n: "0 \<le> roi_bin_grid_h layer roi_ptr * roi_bin_grid_w layer roi_ptr
             * pooled_width layer * pooled_height layer"
    using nn pos by simp
  define F where "F q = map ((!) ?out) [0..<q] @ drop q top_blob" for q
  have "for_loop [0..<nat (mat_c bottom_blob)]
          (forward_channel (pooled_height layer) (pooled_width layer)
             (roi_bin_grid_h layer roi_ptr) (roi_bin_grid_w layer roi_ptr)
             (count layer roi_ptr) (forward_plan layer bottom_blob roi_ptr) bottom_blob) (F 0)
        = Inr (F (nat (mat_c bottom_blob)))"
    by (rule for_loop_upt_exact) (use forward_channel_exact[OF wf nn] in \<open>simp add: F_def\<close>)
  moreover have "F 0 = top_blob" by (simp add: F_def)
  moreover have "F (nat (mat_c bottom_blob)) = ?out"
  proof -
    have "length ?out = nat (mat_c bottom_blob)" by (simp add: forward_output_def)
    then have "map ((!) ?out) [0..<nat (mat_c bottom_blob)] = ?out"
      using map_nth[of ?out] by simp
    then show ?thesis using top by (simp add: F_def)
  qed
  ultimately show ?thesis
    using roi
    by (simp add: forward_def forward_pre_calc_exact[OF n stencil_count_fits(2)[OF nn pos fit]]
        and_then_Inr for_range_eq)
qed

subsection \<open>Sums over the stencils of a cell\<close>



lemma forward_plan_all_zero:
  assumes "nat (roi_bin_grid_h layer roi_ptr) * nat (roi_bin_grid_w layer roi_ptr) = 0"
  shows "forward_plan layer bottom_blob roi_ptr
         = replicate (nat (roi_bin_grid_h layer roi_ptr * roi_bin_grid_w layer roi_ptr
                             * pooled_width layer * pooled_height layer)) zero_PreCalc"
proof -
  have "nat (pooled_height layer) * nat (pooled_width layer)
          * nat (roi_bin_grid_h layer roi_ptr) * nat (roi_bin_grid_w layer roi_ptr)
        = nat (pooled_height layer) * nat (pooled_width layer)
          * (nat (roi_bin_grid_h layer roi_ptr) * nat (roi_bin_grid_w layer roi_ptr))"
    by (simp only: mult.assoc)
  then show ?thesis
    unfolding forward_plan_def by (simp only: assms) simp
qed





subsection \<open>No read outside the feature map\<close>

lemma and_then_not_error:
  assumes "m \<noteq> Inl e" "\<And>x. m = Inr x \<Longrightarrow> f x \<noteq> Inl e"
  shows "and_then m f \<noteq> Inl e"
  using assms by (cases m) (simp_all add: and_then_def)

lemma and_then_Inr_iff:
  "and_then m f = Inr y \<longleftrightarrow> (\<exists>x. m = Inr x \<and> f x = Inr y)"
  by (cases m) (simp_all add: and_then_def)

lemma for_loop_not_error:
  assumes "\<And>i s. i \<in> set xs \<Longrightarrow> body i s \<noteq> Inl e"
  shows "for_loop xs body s \<noteq> Inl e"
  using assms
proof (induction xs arbitrary: s)
  case Nil
  show ?case by simp
next
  case (Cons i xs)
  show ?case
    unfolding for_loop.simps
    by (rule and_then_not_error) (use Cons in simp_all)
qed

lemma for_loop_preserves:
  assumes "\<And>i s s'. I s \<Longrightarrow> body i s = Inr s' \<Longrightarrow> I s'"
    and "I s" "for_loop xs body s = Inr s'"
  shows "I s'"
  using assms(2,3)
proof (induction xs arbitrary: s)
  case Nil
  then show ?case by simp
next
  case (Cons i xs)
  from Cons.prems(2) obtain t where t: "body i s = Inr t" "for_loop xs body t = Inr s'"
    by (auto simp: and_then_Inr_iff)
  have "I t" using assms(1)[OF Cons.prems(1) t(1)] .
  then show ?case using t(2) by (rule Cons.IH)
qed


lemma pre_calc_ix_preserves:
  assumes dims: "1 \<le> height" "1 \<le> width" "int (length ptr) = height * width"
    and "all_in_bounds ptr s"
    and "pre_calc_ix height width start_w bsize_w grid_w pw yy ix s = Inr s'"
  shows "all_in_bounds ptr s'"
proof -
  obtain idx vec where s: "s = (idx, vec)" by (cases s)
  let ?pc = "bilinear_stencil height width yy (sample_x start_w bsize_w grid_w pw ix)"
  from assms(5) have s': "s' = (idx + 1, vec[nat idx := ?pc])"
    unfolding s pre_calc_ix_def
    by (auto simp: and_then_Inr_iff store_def split: if_splits)
  have "set (vec[nat idx := ?pc]) \<subseteq> insert ?pc (set vec)"
    by (rule set_update_subset_insert)
  then show ?thesis
    using assms(4) in_bounds_stencil[OF dims, of yy "sample_x start_w bsize_w grid_w pw ix"]
    unfolding s s' all_in_bounds_def by auto
qed

lemma pre_calc_preserves:
  assumes dims: "1 \<le> height" "1 \<le> width" "int (length ptr) = height * width"
    and "\<forall>pc \<in> set vec. in_bounds ptr pc"
    and "pre_calc_for_bilinear_interpolate height width p_height p_width iy_upper ix_upper
           start_h start_w bsize_h bsize_w grid_h grid_w vec = Inr pre_calc"
  shows "\<forall>pc \<in> set pre_calc. in_bounds ptr pc"
proof -
  let ?I = "all_in_bounds ptr"
  have iy: "?I s'" if "?I s"
    "pre_calc_iy height width ix_upper start_h start_w bsize_h bsize_w grid_h grid_w ph pw iy s
     = Inr s'" for ph pw iy s s'
    using that(2) unfolding pre_calc_iy_def Let_def for_range_def
    by (rule for_loop_preserves[where I = ?I, rotated 2])
       (use that(1) pre_calc_ix_preserves[OF dims] in blast)+
  have pw: "?I s'" if "?I s"
    "for_range iy_upper
       (pre_calc_iy height width ix_upper start_h start_w bsize_h bsize_w grid_h grid_w ph pw) s
     = Inr s'" for ph pw s s'
    using that(2) unfolding for_range_def
    by (rule for_loop_preserves[where I = ?I, rotated 2]) (use that(1) iy in blast)+
  have ph: "?I s'" if "?I s"
    "for_range p_width (\<lambda>pw. for_range iy_upper
       (pre_calc_iy height width ix_upper start_h start_w bsize_h bsize_w grid_h grid_w ph pw)) s
     = Inr s'" for ph s s'
    using that(2) unfolding for_range_def
    by (rule for_loop_preserves[where I = ?I, rotated 2])
       (use that(1) pw[unfolded for_range_def] in blast)+
  from assms(5) obtain idx where run:
    "for_range p_height (\<lambda>ph. for_range p_width (\<lambda>pw. for_range iy_upper
       (pre_calc_iy height width ix_upper start_h start_w bsize_h bsize_w grid_h grid_w ph pw)))
       (0, vec) = Inr (idx, pre_calc)"
    unfolding pre_calc_for_bilinear_interpolate_def
    by (auto simp: and_then_Inr_iff)
  have "?I (0, vec)" using assms(4) by (simp add: all_in_bounds_def)
  then have "?I (idx, pre_calc)"
    using run unfolding for_range_def
    by (rule for_loop_preserves[where I = ?I, rotated 1]) (use ph[unfolded for_range_def] in blast)
  then show ?thesis by (simp add: all_in_bounds_def)
qed


lemma accumulate_no_feature_error:
  assumes "\<forall>pc \<in> set pre_calc. in_bounds ptr pc"
  shows "accumulate pre_calc ptr ix s \<noteq> Inl (OutOfBounds FeatureMap)"
proof -
  obtain idx acc where s: "s = (idx, acc)" by (cases s)
  show ?thesis
  proof (cases "0 \<le> idx \<and> idx < int (length pre_calc)")
    case True
    then have "nat idx < length pre_calc" by linarith
    then have "pre_calc ! nat idx \<in> set pre_calc" by (rule nth_mem)
    then have "stencil_term ptr (pre_calc ! nat idx)
               = Inr (stencil_value ptr (pre_calc ! nat idx))"
      using assms by (intro stencil_term_in_bounds) blast
    then show ?thesis
      using True by (simp add: s accumulate_def load_def and_then_Inr)
  next
    case False
    then have "load StencilVector pre_calc idx = Inl (OutOfBounds StencilVector)"
      by (simp add: load_def)
    then show ?thesis
      by (simp add: s accumulate_def and_then_Inl)
  qed
qed

lemma pool_cell_no_feature_error:
  assumes "\<forall>pc \<in> set pre_calc. in_bounds ptr pc"
  shows "pool_cell grid_h grid_w cnt pre_calc ptr outptr pw s \<noteq> Inl (OutOfBounds FeatureMap)"
proof -
  obtain idx out where s: "s = (idx, out)" by (cases s)
  have sum: "for_range grid_h (\<lambda>iy. for_range grid_w (accumulate pre_calc ptr)) t
             \<noteq> Inl (OutOfBounds FeatureMap)" for t
    unfolding for_range_eq
    by (intro for_loop_not_error accumulate_no_feature_error assms)
  have "and_then (store OutputBlob out i v) (\<lambda>out'. Inr (j, out')) \<noteq> Inl (OutOfBounds FeatureMap)"
    for i v and j :: int
    by (simp add: store_def and_then_def)
  then show ?thesis
    unfolding s pool_cell_def prod.case
    by (intro and_then_not_error sum) (auto split: prod.splits)
qed

lemma pool_channel_no_feature_error:
  assumes "\<forall>pc \<in> set pre_calc. in_bounds ptr pc"
  shows "pool_channel p_height p_width grid_h grid_w cnt pre_calc ptr out
         \<noteq> Inl (OutOfBounds FeatureMap)"
proof -
  have row: "pool_row p_width grid_h grid_w cnt pre_calc ptr ph s \<noteq> Inl (OutOfBounds FeatureMap)"
    for ph s
  proof -
    obtain idx outptr out where s: "s = (idx, outptr, out)" by (cases s)
    show ?thesis
      unfolding s pool_row_def prod.case for_range_eq
      by (intro and_then_not_error for_loop_not_error pool_cell_no_feature_error assms)
         (auto split: prod.splits)
  qed
  show ?thesis
    unfolding pool_channel_def for_range_eq
    by (intro and_then_not_error for_loop_not_error row) (auto split: prod.splits)
qed

lemma forward_channel_no_feature_error:
  assumes "\<forall>pc \<in> set pre_calc. \<forall>ch \<in> set (mat_data bottom_blob). in_bounds ch pc"
    and "q < length (mat_data bottom_blob)"
  shows "forward_channel p_height p_width grid_h grid_w cnt pre_calc bottom_blob q top_blob
         \<noteq> Inl (OutOfBounds FeatureMap)"
proof -
  have ld: "load FeatureMap (mat_data bottom_blob) (int q) = Inr (mat_data bottom_blob ! q)"
    using assms(2) by (simp add: load_def)
  have "mat_data bottom_blob ! q \<in> set (mat_data bottom_blob)"
    using assms(2) by simp
  then have ok: "\<forall>pc \<in> set pre_calc. in_bounds (mat_data bottom_blob ! q) pc"
    using assms(1) by blast
  have l2: "load OutputBlob top_blob (int q) \<noteq> Inl (OutOfBounds FeatureMap)"
    by (simp add: load_def)
  show ?thesis
    unfolding forward_channel_def ld and_then_Inr
    by (intro and_then_not_error pool_channel_no_feature_error[OF ok] l2) simp
qed


lemma pre_calc_no_feature_error:
  "pre_calc_for_bilinear_interpolate height width p_height p_width iy_upper ix_upper
     start_h start_w bsize_h bsize_w grid_h grid_w vec \<noteq> Inl (OutOfBounds FeatureMap)"
proof -
  have ix: "pre_calc_ix height width start_w bsize_w grid_w pw yy ix s
            \<noteq> Inl (OutOfBounds FeatureMap)" for pw yy ix s
    by (cases s) (simp add: pre_calc_ix_def store_def and_then_def)
  show ?thesis
    unfolding pre_calc_for_bilinear_interpolate_def pre_calc_iy_def Let_def for_range_eq
    by (intro and_then_not_error for_loop_not_error ix) (auto split: prod.splits)
qed

lemma forward_no_feature_error:
  assumes "1 \<le> mat_h bottom_blob" "1 \<le> mat_w bottom_blob"
    and "nat (mat_c bottom_blob) \<le> length (mat_data bottom_blob)"
    and "\<forall>ch \<in> set (mat_data bottom_blob).
           int (length ch) = mat_w bottom_blob * mat_h bottom_blob"
  shows "forward layer bottom_blob roi_ptr created \<noteq> Inl (OutOfBounds FeatureMap)"
proof (cases created)
  case None
  then show ?thesis by (simp add: forward_def)
next
  case (Some top_blob)
  show ?thesis
  proof (cases "length roi_ptr < 4")
    case True
    then show ?thesis using Some by (simp add: forward_def)
  next
    case False
    have plan: "forward_pre_calc layer bottom_blob roi_ptr \<noteq> Inl (OutOfBounds FeatureMap)"
      unfolding forward_pre_calc_def Let_def
      using pre_calc_no_feature_error by simp
    have ok: "\<forall>pc \<in> set pre_calc. \<forall>ch \<in> set (mat_data bottom_blob). in_bounds ch pc"
      if run: "forward_pre_calc layer bottom_blob roi_ptr = Inr pre_calc" for pre_calc
    proof (intro ballI)
      fix pc ch
      assume pc: "pc \<in> set pre_calc" and ch: "ch \<in> set (mat_data bottom_blob)"
      have len: "int (length ch) = mat_h bottom_blob * mat_w bottom_blob"
        using assms(4) ch by (simp add: mult.commute)
      have "0 < mat_h bottom_blob * mat_w bottom_blob" using assms(1,2) by simp
      then have "ch \<noteq> []" using len by auto
      then have zero: "\<forall>pc \<in> set (replicate n zero_PreCalc). in_bounds ch pc" for n
        by (simp add: in_bounds_zero)
      from run have "\<forall>pc \<in> set pre_calc. in_bounds ch pc"
        unfolding forward_pre_calc_def Let_def
        by (auto split: if_splits intro: pre_calc_preserves[OF assms(1,2) len zero, rule_format])
      then show "in_bounds ch pc" using pc by blast
    qed
    have chans: "for_range (mat_c bottom_blob)
                   (forward_channel (pooled_height layer) (pooled_width layer)
                      (roi_bin_grid_h layer roi_ptr) (roi_bin_grid_w layer roi_ptr)
                      (count layer roi_ptr) pre_calc bottom_blob) top_blob
                 \<noteq> Inl (OutOfBounds FeatureMap)"
      if "forward_pre_calc layer bottom_blob roi_ptr = Inr pre_calc" for pre_calc
      unfolding for_range_def
      by (intro for_loop_not_error forward_channel_no_feature_error ok[OF that])
         (use assms(3) in simp)
    show ?thesis
      using Some False unfolding forward_def Let_def
      by (simp del: not_less) (intro and_then_not_error plan chans)
  qed
qed

subsection \<open>Grid sizes, constant maps and shifted coordinates\<close>

lemma shifted_geometry:
  assumes sh: "\<forall>i<4. roi_shifted ! i = roi_ptr ! i + 0.5 / spatial_scale layer"
    and w: "1 \<le> roi_end_w (layer\<lparr>aligned := False\<rparr>) roi_ptr
                 - roi_start_w (layer\<lparr>aligned := False\<rparr>) roi_ptr"
    and h: "1 \<le> roi_end_h (layer\<lparr>aligned := False\<rparr>) roi_ptr
                 - roi_start_h (layer\<lparr>aligned := False\<rparr>) roi_ptr"
  shows "roi_start_w (layer\<lparr>aligned := True\<rparr>) roi_shifted
           = roi_start_w (layer\<lparr>aligned := False\<rparr>) roi_ptr"
    "roi_start_h (layer\<lparr>aligned := True\<rparr>) roi_shifted
           = roi_start_h (layer\<lparr>aligned := False\<rparr>) roi_ptr"
    "roi_width (layer\<lparr>aligned := True\<rparr>) roi_shifted
           = roi_width (layer\<lparr>aligned := False\<rparr>) roi_ptr"
    "roi_height (layer\<lparr>aligned := True\<rparr>) roi_shifted
           = roi_height (layer\<lparr>aligned := False\<rparr>) roi_ptr"
proof -
  have s: "spatial_scale layer \<noteq> 0"
    using w by (auto simp: roi_end_w_def roi_start_w_def offset_def)
  have e: "roi_shifted ! 0 = roi_ptr ! 0 + 0.5 / spatial_scale layer"
    "roi_shifted ! Suc 0 = roi_ptr ! Suc 0 + 0.5 / spatial_scale layer"
    "roi_shifted ! 2 = roi_ptr ! 2 + 0.5 / spatial_scale layer"
    "roi_shifted ! 3 = roi_ptr ! 3 + 0.5 / spatial_scale layer"
    using sh by simp_all
  show sw: "roi_start_w (layer\<lparr>aligned := True\<rparr>) roi_shifted
           = roi_start_w (layer\<lparr>aligned := False\<rparr>) roi_ptr"
    using s by (simp add: roi_start_w_def offset_def e field_simps)
  show sh': "roi_start_h (layer\<lparr>aligned := True\<rparr>) roi_shifted
           = roi_start_h (layer\<lparr>aligned := False\<rparr>) roi_ptr"
    using s by (simp add: roi_start_h_def offset_def e field_simps)
  have ew: "roi_end_w (layer\<lparr>aligned := True\<rparr>) roi_shifted
           = roi_end_w (layer\<lparr>aligned := False\<rparr>) roi_ptr"
    using s by (simp add: roi_end_w_def offset_def e field_simps)
  have eh: "roi_end_h (layer\<lparr>aligned := True\<rparr>) roi_shifted
           = roi_end_h (layer\<lparr>aligned := False\<rparr>) roi_ptr"
    using s by (simp add: roi_end_h_def offset_def e field_simps)
  show "roi_width (layer\<lparr>aligned := True\<rparr>) roi_shifted
           = roi_width (layer\<lparr>aligned := False\<rparr>) roi_ptr"
    using w by (simp add: roi_width_def sw ew max_def)
  show "roi_height (layer\<lparr>aligned := True\<rparr>) roi_shifted
           = roi_height (layer\<lparr>aligned := False\<rparr>) roi_ptr"
    using h by (simp add: roi_height_def sh' eh max_def)
qed






lemma ceiling_zero:
  fixes r :: real and p :: int
  assumes "0 < p" "r \<le> 0" "- real_of_int p < r"
  shows "\<lceil>r / real_of_int p\<rceil> = 0"
proof -
  have "r / real_of_int p \<le> 0"
    using assms(1,2) by (simp add: divide_le_0_iff)
  moreover have "- 1 < r / real_of_int p"
    using assms(1,3) by (simp add: pos_less_divide_eq)
  ultimately show ?thesis
    by (simp add: ceiling_eq_iff)
qed

text \<open>
  For sample coordinates that are numbers, on a feature map of at least one pixel: the
  pixel indices of a stencil that is not the sentinel are inside the feature map, and the
  forward pass on a ROI of numbers never reads outside a channel buffer of
  \<open>width * height\<close> elements.
\<close>

lemma reads_in_bounds_real:
  assumes "1 \<le> height" "1 \<le> width"
  shows "(\<not> (y < - 1 \<or> y > real_of_int height \<or> x < - 1 \<or> x > real_of_int width) \<longrightarrow>
            0 \<le> low_index height y \<and> low_index height y \<le> high_index height y
          \<and> high_index height y \<le> height - 1
          \<and> 0 \<le> low_index width x \<and> low_index width x \<le> high_index width x
          \<and> high_index width x \<le> width - 1
          \<and> pos1 (bilinear_stencil height width y x)
              = low_index height y * width + low_index width x
          \<and> pos2 (bilinear_stencil height width y x)
              = low_index height y * width + high_index width x
          \<and> pos3 (bilinear_stencil height width y x)
              = high_index height y * width + low_index width x
          \<and> pos4 (bilinear_stencil height width y x)
              = high_index height y * width + high_index width x
          \<and> (\<forall>p \<in> {pos1 (bilinear_stencil height width y x),
                      pos2 (bilinear_stencil height width y x),
                      pos3 (bilinear_stencil height width y x),
                      pos4 (bilinear_stencil height width y x)}. 0 \<le> p \<and> p < height * width))
       \<and> (mat_h bottom_blob = height \<and> mat_w bottom_blob = width
            \<and> nat (mat_c bottom_blob) \<le> length (mat_data bottom_blob)
            \<and> (\<forall>ch \<in> set (mat_data bottom_blob). int (length ch) = width * height) \<longrightarrow>
          forward layer bottom_blob roi_ptr created \<noteq> Inl (OutOfBounds FeatureMap))"
proof (intro conjI impI)
  assume inside: "\<not> (y < - 1 \<or> y > real_of_int height \<or> x < - 1 \<or> x > real_of_int width)"
  note iy = index_range[OF assms(1), of y] and ix = index_range[OF assms(2), of x]
  show "0 \<le> low_index height y" "low_index height y \<le> high_index height y"
    "high_index height y \<le> height - 1" by (rule iy)+
  show "0 \<le> low_index width x" "low_index width x \<le> high_index width x"
    "high_index width x \<le> width - 1" by (rule ix)+
  show "pos1 (bilinear_stencil height width y x)
          = low_index height y * width + low_index width x"
    "pos2 (bilinear_stencil height width y x)
          = low_index height y * width + high_index width x"
    "pos3 (bilinear_stencil height width y x)
          = high_index height y * width + low_index width x"
    "pos4 (bilinear_stencil height width y x)
          = high_index height y * width + high_index width x"
    by (simp_all add: bilinear_stencil_inside[OF inside])
  have "int (length (replicate (nat (height * width)) (0::real))) = height * width"
    using assms by simp
  from in_bounds_stencil[OF assms this, of y x]
  show "\<forall>p \<in> {pos1 (bilinear_stencil height width y x),
                pos2 (bilinear_stencil height width y x),
                pos3 (bilinear_stencil height width y x),
                pos4 (bilinear_stencil height width y x)}. 0 \<le> p \<and> p < height * width"
    using assms by (simp add: in_bounds_def)
next
  assume "mat_h bottom_blob = height \<and> mat_w bottom_blob = width
            \<and> nat (mat_c bottom_blob) \<le> length (mat_data bottom_blob)
            \<and> (\<forall>ch \<in> set (mat_data bottom_blob). int (length ch) = width * height)"
  then show "forward layer bottom_blob roi_ptr created \<noteq> Inl (OutOfBounds FeatureMap)"
    using assms by (intro forward_no_feature_error) simp_all
qed

text \<open>On a ROI buffer without a NaN, \<open>forward_nan\<close> is \<open>forward\<close>.\<close>

lemma forward_nan_finite:
  "forward_nan layer bottom_blob (map Finite roi_ptr) created
   = forward layer bottom_blob roi_ptr created"
proof (cases created)
  case None
  then show ?thesis by (simp add: forward_nan_def forward_def)
next
  case (Some top_blob)
  have m: "map finite_part (map Finite roi_ptr) = roi_ptr"
    by (simp add: comp_def finite_part_def)
  show ?thesis
  proof (cases "length roi_ptr < 4")
    case True
    then show ?thesis using Some by (simp add: forward_nan_def forward_def)
  next
    case False
    then have len: "0 < length roi_ptr" "1 < length roi_ptr" "2 < length roi_ptr"
      "3 < length roi_ptr"
      by linarith+
    have "map Finite roi_ptr ! 0 = Finite (roi_ptr ! 0)"
      "map Finite roi_ptr ! 1 = Finite (roi_ptr ! 1)"
      "map Finite roi_ptr ! 2 = Finite (roi_ptr ! 2)"
      "map Finite roi_ptr ! 3 = Finite (roi_ptr ! 3)"
      using len by (simp_all only: nth_map)
    then show ?thesis
      using Some False unfolding forward_nan_def Let_def m by (simp del: One_nat_def)
  qed
qed

subsection \<open>The status of the forward pass\<close>

text \<open>
  The forward pass returns \<open>-100\<close> exactly when the output blob could not be created, and
  \<open>0\<close> on well-formed inputs whose stencil vector can be created.
\<close>

lemma load_not_alloc: "load b xs i \<noteq> Inl AllocFailed"
  by (simp add: load_def)

lemma store_not_alloc: "store b xs i v \<noteq> Inl AllocFailed"
  by (simp add: store_def)

lemma pre_calc_not_alloc:
  "pre_calc_for_bilinear_interpolate height width p_height p_width iy_upper ix_upper
     start_h start_w bsize_h bsize_w grid_h grid_w vec \<noteq> Inl AllocFailed"
proof -
  have ix: "pre_calc_ix height width start_w bsize_w grid_w pw yy ix s \<noteq> Inl AllocFailed"
    for pw yy ix s
    by (cases s) (simp add: pre_calc_ix_def store_def and_then_def)
  show ?thesis
    unfolding pre_calc_for_bilinear_interpolate_def pre_calc_iy_def Let_def for_range_eq
    by (intro and_then_not_error for_loop_not_error ix) (auto split: prod.splits)
qed

lemma pool_channel_not_alloc:
  "pool_channel p_height p_width grid_h grid_w cnt pre_calc ptr out \<noteq> Inl AllocFailed"
proof -
  have summand: "stencil_term ptr pc \<noteq> Inl AllocFailed" for pc
    unfolding stencil_term_def
    by (intro and_then_not_error load_not_alloc) simp
  have acc: "accumulate pre_calc ptr ix s \<noteq> Inl AllocFailed" for ix s
  proof -
    obtain idx val where s: "s = (idx, val)" by (cases s)
    show ?thesis
      unfolding s accumulate_def prod.case
      by (intro and_then_not_error load_not_alloc summand) simp
  qed
  have cell: "pool_cell grid_h grid_w cnt pre_calc ptr outptr pw s \<noteq> Inl AllocFailed"
    for outptr pw s
  proof -
    obtain idx buf where s: "s = (idx, buf)" by (cases s)
    have "and_then (store OutputBlob buf i v) (\<lambda>out'. Inr (j, out')) \<noteq> Inl AllocFailed"
      for i v and j :: int
      by (intro and_then_not_error store_not_alloc) simp
    then show ?thesis
      unfolding s pool_cell_def prod.case for_range_eq
      by (intro and_then_not_error for_loop_not_error acc) (auto split: prod.splits)
  qed
  have row: "pool_row p_width grid_h grid_w cnt pre_calc ptr ph s \<noteq> Inl AllocFailed" for ph s
  proof -
    obtain idx outptr buf where s: "s = (idx, outptr, buf)" by (cases s)
    show ?thesis
      unfolding s pool_row_def prod.case for_range_eq
      by (intro and_then_not_error for_loop_not_error cell) (auto split: prod.splits)
  qed
  show ?thesis
    unfolding pool_channel_def for_range_eq
    by (intro and_then_not_error for_loop_not_error row) (auto split: prod.splits)
qed

lemma forward_alloc_failed_iff:
  "forward layer bottom_blob roi_ptr created = Inl AllocFailed \<longleftrightarrow> created = None"
proof (cases created)
  case None
  then show ?thesis by (simp add: forward_def)
next
  case (Some top_blob)
  have plan: "forward_pre_calc layer bottom_blob roi_ptr \<noteq> Inl AllocFailed"
    unfolding forward_pre_calc_def Let_def using pre_calc_not_alloc by simp
  have chan: "forward_channel p_height p_width grid_h grid_w cnt pre_calc bottom_blob q top
              \<noteq> Inl AllocFailed" for p_height p_width grid_h grid_w cnt pre_calc q top
    unfolding forward_channel_def
    by (intro and_then_not_error load_not_alloc pool_channel_not_alloc) simp
  have "forward layer bottom_blob roi_ptr (Some top_blob) \<noteq> Inl AllocFailed"
  proof (cases "length roi_ptr < 4")
    case True
    then show ?thesis by (simp add: forward_def)
  next
    case False
    then show ?thesis
      unfolding forward_def Let_def for_range_eq
      by (simp del: not_less) (intro and_then_not_error plan for_loop_not_error chan)
  qed
  then show ?thesis using Some by simp
qed

lemma forward_status:
  "status (forward layer bottom_blob roi_ptr created) = Some (- 100) \<longleftrightarrow> created = None"
proof -
  have "status r = Some (- 100) \<longleftrightarrow> r = Inl AllocFailed" for r :: "error + real list list"
    by (cases r rule: status.cases) simp_all
  then show ?thesis by (simp add: forward_alloc_failed_iff)
qed

lemma forward_status_success:
  assumes "well_formed layer bottom_blob roi_ptr top_blob"
    and "0 \<le> roi_bin_grid_h layer roi_ptr * roi_bin_grid_w layer roi_ptr"
    and "roi_bin_grid_h layer roi_ptr * roi_bin_grid_w layer roi_ptr
           * pooled_width layer * pooled_height layer \<le> 2147483647"
  shows "status (forward layer bottom_blob roi_ptr (Some top_blob)) = Some 0"
  using forward_exact[OF assms] by simp




section \<open>The claims\<close>




text \<open>
  Claim C2. Called as the forward pass calls it (loop bounds equal to the grid sizes, a
  vector of \<open>roi_bin_grid_h * roi_bin_grid_w * pooled_width * pooled_height\<close> elements),
  the builder returns a sequence of exactly \<open>pooled_height * pooled_width * roi_bin_grid_h *
  roi_bin_grid_w\<close> stencils, and the stencil at the row-major position of the counters
  \<open>(ph, pw, iy, ix)\<close>, \<open>ph\<close> outermost, is the one of the sample point
  \<open>y = roi_start_h + ph * bin_size_h + (iy + 0.5) * bin_size_h / roi_bin_grid_h\<close>,
  \<open>x = roi_start_w + pw * bin_size_w + (ix + 0.5) * bin_size_w / roi_bin_grid_w\<close>.
\<close>

theorem pre_calc_sequence:
  assumes "0 \<le> p_height" "0 \<le> p_width" "0 \<le> grid_h" "0 \<le> grid_w"
    and "int (length pre_calc) = grid_h * grid_w * p_width * p_height"
  shows "\<exists>plan.
           pre_calc_for_bilinear_interpolate height width p_height p_width grid_h grid_w
             start_h start_w bsize_h bsize_w grid_h grid_w pre_calc = Inr plan
         \<and> int (length plan) = p_height * p_width * grid_h * grid_w
         \<and> (\<forall>ph<nat p_height. \<forall>pw<nat p_width. \<forall>iy<nat grid_h. \<forall>ix<nat grid_w.
               plan ! (((ph * nat p_width + pw) * nat grid_h + iy) * nat grid_w + ix)
               = bilinear_stencil height width
                   (start_h + real ph * bsize_h
                      + (real iy + 0.5) * bsize_h / real_of_int grid_h)
                   (start_w + real pw * bsize_w
                      + (real ix + 0.5) * bsize_w / real_of_int grid_w))"
proof -
  let ?N = "nat p_height * nat p_width * nat grid_h * nat grid_w"
  let ?e = "plan_entry height width p_width grid_h grid_w start_h start_w bsize_h bsize_w
              grid_h grid_w"
  have "length pre_calc = nat (p_height * p_width * grid_h * grid_w)"
    using assms(5) by (simp add: mult_ac)
  then have len: "length pre_calc = ?N"
    using assms(1-4) by (simp add: nat_mult4)
  then have run: "pre_calc_for_bilinear_interpolate height width p_height p_width grid_h grid_w
                    start_h start_w bsize_h bsize_w grid_h grid_w pre_calc
                  = Inr (map ?e [0..<?N])"
    using pre_calc_exact[of p_height p_width grid_h grid_w pre_calc height width
        start_h start_w bsize_h bsize_w grid_h grid_w]
    by simp
  have size: "int (length (map ?e [0..<?N])) = p_height * p_width * grid_h * grid_w"
    using assms(1-4) by simp
  have entry: "map ?e [0..<?N] ! (((ph * nat p_width + pw) * nat grid_h + iy) * nat grid_w + ix)
               = bilinear_stencil height width
                   (start_h + real ph * bsize_h
                      + (real iy + 0.5) * bsize_h / real_of_int grid_h)
                   (start_w + real pw * bsize_w
                      + (real ix + 0.5) * bsize_w / real_of_int grid_w)"
    if "ph < nat p_height" "pw < nat p_width" "iy < nat grid_h" "ix < nat grid_w"
    for ph pw iy ix
  proof -
    have "((ph * nat p_width + pw) * nat grid_h + iy) * nat grid_w + ix < ?N"
      using that by (rule flat_index4_less)
    then show ?thesis
      using plan_entry_flat[OF that(2,3,4)]
      by (simp add: sample_y_def sample_x_def)
  qed
  show ?thesis
    using run size entry by blast
qed

theorem pre_calc_sequence_witness:
  "(0::int) \<le> 1 \<and> (0::int) \<le> 2 \<and>
   int (length [zero_PreCalc, zero_PreCalc]) = 1 * 1 * 2 * 1 \<and>
   (\<exists>plan.
       pre_calc_for_bilinear_interpolate 4 4 1 2 1 1 0 0 4 2 1 1 [zero_PreCalc, zero_PreCalc]
         = Inr plan
     \<and> int (length plan) = 1 * 2 * 1 * 1
     \<and> (\<forall>ph<nat 1. \<forall>pw<nat 2. \<forall>iy<nat 1. \<forall>ix<nat 1.
           plan ! (((ph * nat 2 + pw) * nat 1 + iy) * nat 1 + ix)
           = bilinear_stencil 4 4
               (0 + real ph * 4 + (real iy + 0.5) * 4 / real_of_int 1)
               (0 + real pw * 2 + (real ix + 0.5) * 2 / real_of_int 1)))"
proof -
  have h1: "(0::int) \<le> 1" and h2: "(0::int) \<le> 2" by simp_all
  have h3: "int (length [zero_PreCalc, zero_PreCalc]) = 1 * 1 * 2 * 1" by simp
  show ?thesis
    using pre_calc_sequence[OF h1 h2 h1 h1 h3, of 4 4 0 0 4 2] h1 h2 h3 by blast
qed

text \<open>
  Claim C3. For a sample point \<open>(x, y)\<close> with \<open>y < -1\<close>, \<open>y > height\<close>, \<open>x < -1\<close> or
  \<open>x > width\<close> the builder emits the all-zero stencil; over a non-empty channel buffer
  its summand is 0, and the accumulation step that meets it advances the cursor, so that it
  takes one of the cell's sample slots, and leaves the sum unchanged. For every other sample
  point the stencil is the one of the coordinates clamped to be at least 0 (on a feature
  map of non-negative size), it is not the all-zero stencil, and its four weights are
  non-negative and sum to exactly 1.
\<close>

theorem stencil_boundary_policy:
  "(y < - 1 \<or> y > real_of_int height \<or> x < - 1 \<or> x > real_of_int width \<longrightarrow>
      bilinear_stencil height width y x
        = \<lparr>pos1 = 0, pos2 = 0, pos3 = 0, pos4 = 0, w1 = 0, w2 = 0, w3 = 0, w4 = 0\<rparr>
      \<and> (ptr \<noteq> [] \<longrightarrow> stencil_term ptr (bilinear_stencil height width y x) = Inr 0)
      \<and> (ptr \<noteq> [] \<and> 0 \<le> k \<and> k < int (length pre_calc)
           \<and> pre_calc ! nat k = bilinear_stencil height width y x \<longrightarrow>
         accumulate pre_calc ptr ix (k, output_val) = Inr (k + 1, output_val)))
   \<and> (\<not> (y < - 1 \<or> y > real_of_int height \<or> x < - 1 \<or> x > real_of_int width) \<longrightarrow>
      (0 \<le> height \<and> 0 \<le> width \<longrightarrow>
         bilinear_stencil height width y x
           = bilinear_stencil height width (max y 0) (max x 0))
      \<and> bilinear_stencil height width y x
          \<noteq> \<lparr>pos1 = 0, pos2 = 0, pos3 = 0, pos4 = 0, w1 = 0, w2 = 0, w3 = 0, w4 = 0\<rparr>
      \<and> 0 \<le> w1 (bilinear_stencil height width y x)
      \<and> 0 \<le> w2 (bilinear_stencil height width y x)
      \<and> 0 \<le> w3 (bilinear_stencil height width y x)
      \<and> 0 \<le> w4 (bilinear_stencil height width y x)
      \<and> w1 (bilinear_stencil height width y x) + w2 (bilinear_stencil height width y x)
          + w3 (bilinear_stencil height width y x) + w4 (bilinear_stencil height width y x) = 1)"
proof (cases "y < - 1 \<or> y > real_of_int height \<or> x < - 1 \<or> x > real_of_int width")
  case True
  have z: "bilinear_stencil height width y x = zero_PreCalc"
    using True by (rule bilinear_stencil_outside)
  have t: "stencil_term ptr zero_PreCalc = Inr 0" if "ptr \<noteq> []"
    using that by (simp add: stencil_term_def zero_PreCalc_def load_def and_then_Inr)
  have a: "accumulate pre_calc ptr ix (k, output_val) = Inr (k + 1, output_val)"
    if "ptr \<noteq> []" "0 \<le> k" "k < int (length pre_calc)" "pre_calc ! nat k = zero_PreCalc"
    using that t by (simp add: accumulate_def load_def and_then_Inr)
  show ?thesis
    using True t a by (simp add: z) (simp add: zero_PreCalc_def)
next
  case False
  have "w1 (bilinear_stencil height width y x) + w2 (bilinear_stencil height width y x)
     + w3 (bilinear_stencil height width y x) + w4 (bilinear_stencil height width y x) = 1"
    using False by (rule stencil_weights)
  then have "bilinear_stencil height width y x
          \<noteq> \<lparr>pos1 = 0, pos2 = 0, pos3 = 0, pos4 = 0, w1 = 0, w2 = 0, w3 = 0, w4 = 0\<rparr>"
    by auto
  then show ?thesis
    using False stencil_weights[OF False] stencil_clamped[OF False] by simp
qed

theorem stencil_boundary_policy_witness:
  "bilinear_stencil 4 4 5 0
     = \<lparr>pos1 = 0, pos2 = 0, pos3 = 0, pos4 = 0, w1 = 0, w2 = 0, w3 = 0, w4 = 0\<rparr>
   \<and> stencil_term [1] (bilinear_stencil 4 4 5 0) = Inr 0
   \<and> accumulate [bilinear_stencil 4 4 5 0] [1] 0 (0, 7) = Inr (0 + 1, 7)
   \<and> bilinear_stencil 4 4 (- 1 / 2) (3 / 2) = bilinear_stencil 4 4 (max (- 1 / 2) 0) (max (3 / 2) 0)
   \<and> bilinear_stencil 4 4 (- 1 / 2) (3 / 2)
       \<noteq> \<lparr>pos1 = 0, pos2 = 0, pos3 = 0, pos4 = 0, w1 = 0, w2 = 0, w3 = 0, w4 = 0\<rparr>
   \<and> w1 (bilinear_stencil 4 4 (- 1 / 2) (3 / 2)) + w2 (bilinear_stencil 4 4 (- 1 / 2) (3 / 2))
       + w3 (bilinear_stencil 4 4 (- 1 / 2) (3 / 2)) + w4 (bilinear_stencil 4 4 (- 1 / 2) (3 / 2))
       = 1"
proof -
  have out: "(5::real) < - 1 \<or> 5 > real_of_int 4 \<or> (0::real) < - 1 \<or> 0 > real_of_int 4"
    by simp
  have ins: "\<not> ((- 1 / 2 :: real) < - 1 \<or> - 1 / 2 > real_of_int 4
               \<or> (3 / 2 :: real) < - 1 \<or> 3 / 2 > real_of_int 4)"
    by simp
  have dims: "(0::int) \<le> 4" by simp
  have buf: "[1::real] \<noteq> []" by simp
  have cur: "(0::int) \<le> 0 \<and> 0 < int (length [bilinear_stencil 4 4 5 0])" by simp
  have at: "[bilinear_stencil 4 4 5 0] ! nat 0 = bilinear_stencil 4 4 5 0" by simp
  show ?thesis
    using stencil_boundary_policy[of 5 4 0 4 "[1]" 0 "[bilinear_stencil 4 4 5 0]" 0 7]
      stencil_boundary_policy[of "- 1 / 2" 4 "3 / 2" 4]
      out ins dims buf cur at
    by blast
qed

text \<open>
  Claim C4 fails on the code. A NaN among the ROI coordinates makes every sample
  coordinate of its axis a NaN. Such a sample passes the test of line 67, since every
  comparison with a NaN is false, so its stencil is not the sentinel; its pixel indices
  are then casts of a NaN to \<open>int\<close> (lines 90-91), which are not confined to
  \<open>0 .. height - 1\<close> and \<open>0 .. width - 1\<close>, and the reads of lines 227-229 at the offsets
  built from them are not in bounds. Here the ROI is \<open>(NaN, 0, 4, 4)\<close> on the 4 by 4
  feature map, with 2 by 2 samples per cell: the first sample point is \<open>y = 0\<close>,
  \<open>x = NaN\<close>.
\<close>

theorem nan_roi_undefined_cast:
  "bilinear_stencil_nan 4 4 (Finite 0) NaN = Inl UndefinedCast
   \<and> forward_nan example_layer example_blob [NaN, Finite 0, Finite 4, Finite 4]
         (Some example_top) = Inl UndefinedCast"
  by code_simp

text \<open>
  Claim C5. The quantities derived from the ROI: \<open>offset\<close> is 0.5 when \<open>aligned\<close> and
  0 otherwise; \<open>roi_start\<close> and \<open>roi_end\<close> are the ROI coordinates times
  \<open>spatial_scale\<close> minus \<open>offset\<close>; \<open>roi_width\<close> and \<open>roi_height\<close> are the
  differences \<open>roi_end - roi_start\<close>, raised to at least 1 exactly when \<open>aligned\<close> is
  false; \<open>bin_size\<close> is the ROI size divided by the pooled size.
\<close>

theorem derived_quantities:
  "offset layer = (if aligned layer then 0.5 else 0.0)
   \<and> roi_start_w layer roi_ptr = roi_ptr ! 0 * spatial_scale layer - offset layer
   \<and> roi_start_h layer roi_ptr = roi_ptr ! 1 * spatial_scale layer - offset layer
   \<and> roi_end_w layer roi_ptr = roi_ptr ! 2 * spatial_scale layer - offset layer
   \<and> roi_end_h layer roi_ptr = roi_ptr ! 3 * spatial_scale layer - offset layer
   \<and> roi_width layer roi_ptr
       = (if aligned layer then roi_end_w layer roi_ptr - roi_start_w layer roi_ptr
          else max (roi_end_w layer roi_ptr - roi_start_w layer roi_ptr) 1.0)
   \<and> roi_height layer roi_ptr
       = (if aligned layer then roi_end_h layer roi_ptr - roi_start_h layer roi_ptr
          else max (roi_end_h layer roi_ptr - roi_start_h layer roi_ptr) 1.0)
   \<and> bin_size_w layer roi_ptr = roi_width layer roi_ptr / real_of_int (pooled_width layer)
   \<and> bin_size_h layer roi_ptr = roi_height layer roi_ptr / real_of_int (pooled_height layer)"
  by (simp add: offset_def roi_start_w_def roi_start_h_def roi_end_w_def roi_end_h_def
      roi_width_def roi_height_def bin_size_w_def bin_size_h_def)







text \<open>
  Claim C8. When \<open>roi_end - roi_start\<close> is at least 1 along both axes, so that the clamp
  of the non-aligned mode has no effect, the forward pass with \<open>aligned = false\<close> gives
  the result of the forward pass with \<open>aligned = true\<close> on the four coordinates shifted
  by \<open>0.5 / spatial_scale\<close>.
\<close>

theorem aligned_offset_equivalence:
  assumes "length roi_shifted = length roi_ptr"
    and "\<forall>i<4. roi_shifted ! i = roi_ptr ! i + 0.5 / spatial_scale layer"
    and "1 \<le> roi_end_w (layer\<lparr>aligned := False\<rparr>) roi_ptr
             - roi_start_w (layer\<lparr>aligned := False\<rparr>) roi_ptr"
    and "1 \<le> roi_end_h (layer\<lparr>aligned := False\<rparr>) roi_ptr
             - roi_start_h (layer\<lparr>aligned := False\<rparr>) roi_ptr"
  shows "forward (layer\<lparr>aligned := False\<rparr>) bottom_blob roi_ptr created
         = forward (layer\<lparr>aligned := True\<rparr>) bottom_blob roi_shifted created"
proof -
  note g = shifted_geometry[OF assms(2,3,4)]
  have bin: "bin_size_w (layer\<lparr>aligned := True\<rparr>) roi_shifted
               = bin_size_w (layer\<lparr>aligned := False\<rparr>) roi_ptr"
    "bin_size_h (layer\<lparr>aligned := True\<rparr>) roi_shifted
               = bin_size_h (layer\<lparr>aligned := False\<rparr>) roi_ptr"
    by (simp_all add: bin_size_w_def bin_size_h_def g)
  have grid: "roi_bin_grid_h (layer\<lparr>aligned := True\<rparr>) roi_shifted
               = roi_bin_grid_h (layer\<lparr>aligned := False\<rparr>) roi_ptr"
    "roi_bin_grid_w (layer\<lparr>aligned := True\<rparr>) roi_shifted
               = roi_bin_grid_w (layer\<lparr>aligned := False\<rparr>) roi_ptr"
    by (simp_all add: roi_bin_grid_h_def roi_bin_grid_w_def g)
  have cnt: "count (layer\<lparr>aligned := True\<rparr>) roi_shifted
               = count (layer\<lparr>aligned := False\<rparr>) roi_ptr"
    by (simp add: count_def grid)
  have plan: "forward_pre_calc (layer\<lparr>aligned := True\<rparr>) bottom_blob roi_shifted
               = forward_pre_calc (layer\<lparr>aligned := False\<rparr>) bottom_blob roi_ptr"
    by (simp add: forward_pre_calc_def Let_def g bin grid)
  show ?thesis
  proof (cases created)
    case None
    then show ?thesis by (simp add: forward_def)
  next
    case (Some top_blob)
    then show ?thesis
      by (cases "length roi_ptr < 4") (simp_all add: forward_def Let_def plan grid cnt assms(1))
  qed
qed

theorem aligned_offset_equivalence_witness:
  "length [1 / 2, 1 / 2, 9 / 2, 9 / 2 :: real] = length example_roi
   \<and> 1 \<le> roi_end_w (example_layer\<lparr>aligned := False\<rparr>) example_roi
           - roi_start_w (example_layer\<lparr>aligned := False\<rparr>) example_roi
   \<and> 1 \<le> roi_end_h (example_layer\<lparr>aligned := False\<rparr>) example_roi
           - roi_start_h (example_layer\<lparr>aligned := False\<rparr>) example_roi
   \<and> forward (example_layer\<lparr>aligned := False\<rparr>) example_blob example_roi (Some example_top)
       = forward (example_layer\<lparr>aligned := True\<rparr>) example_blob [1 / 2, 1 / 2, 9 / 2, 9 / 2]
           (Some example_top)"
proof -
  have len: "length [1 / 2, 1 / 2, 9 / 2, 9 / 2 :: real] = length example_roi"
    by (simp add: example_roi_def)
  have "[1 / 2, 1 / 2, 9 / 2, 9 / 2 :: real] ! i
        = example_roi ! i + 0.5 / spatial_scale example_layer" if "i < 4" for i
  proof -
    from that have "i = 0 \<or> i = 1 \<or> i = 2 \<or> i = 3" by linarith
    then show ?thesis
      by (auto simp: example_roi_def example_layer_def)
  qed
  then have sh: "\<forall>i<4. [1 / 2, 1 / 2, 9 / 2, 9 / 2 :: real] ! i
                   = example_roi ! i + 0.5 / spatial_scale example_layer"
    by blast
  have w: "1 \<le> roi_end_w (example_layer\<lparr>aligned := False\<rparr>) example_roi
               - roi_start_w (example_layer\<lparr>aligned := False\<rparr>) example_roi"
    by (simp add: roi_end_w_def roi_start_w_def offset_def example_roi_def example_layer_def)
  have h: "1 \<le> roi_end_h (example_layer\<lparr>aligned := False\<rparr>) example_roi
               - roi_start_h (example_layer\<lparr>aligned := False\<rparr>) example_roi"
    by (simp add: roi_end_h_def roi_start_h_def offset_def example_roi_def example_layer_def)
  show ?thesis
    using aligned_offset_equivalence[OF len sh w h, of example_blob "Some example_top"] len w h
    by blast
qed

text \<open>
  Claim C9 fails on the code: with adaptive sampling and \<open>aligned = true\<close>, a ROI whose
  end lies above its start by at least the pooled height, and whose width is positive,
  gives \<open>roi_bin_grid_h < 0 < roi_bin_grid_w\<close>; the vector of line 191 is then asked for a
  negative number of elements and the forward pass ends in an exception, returning neither
  \<open>0\<close> nor \<open>-100\<close>, although the output blob was allocated.
\<close>

theorem forward_throws_on_inverted_roi:
  "forward adaptive_layer2 example_blob [0, 4, 4, 0] (Some example_top) = Inl LengthError
   \<and> status (forward adaptive_layer2 example_blob [0, 4, 4, 0] (Some example_top)) = None"
proof -
  have "roi_bin_grid_h adaptive_layer2 [0, 4, 4, 0] = - 2"
    by (simp add: roi_bin_grid_h_def roi_height_def roi_end_h_def roi_start_h_def offset_def
        adaptive_layer2_def)
  moreover have "roi_bin_grid_w adaptive_layer2 [0, 4, 4, 0] = 2"
    by (simp add: roi_bin_grid_w_def roi_width_def roi_end_w_def roi_start_w_def offset_def
        adaptive_layer2_def)
  ultimately have "forward_pre_calc adaptive_layer2 example_blob [0, 4, 4, 0] = Inl LengthError"
    by (simp add: forward_pre_calc_def int32_def adaptive_layer2_def)
  then have "forward adaptive_layer2 example_blob [0, 4, 4, 0] (Some example_top)
             = Inl LengthError"
    by (simp add: forward_def and_then_Inl)
  then show ?thesis by simp
qed

text \<open>
  Claim C10, as amended. With well-formed inputs, \<open>sampling_ratio \<le> 0\<close> and \<open>aligned\<close>
  true, if along an axis \<open>roi_end \<le> roi_start\<close> and \<open>roi_start - roi_end\<close> is less than
  the pooled size of that axis, then \<open>roi_bin_grid\<close> is 0 for that axis, the stencil
  sequence is empty, the divisor is 1 and the forward pass succeeds with every output cell
  equal to 0.
\<close>

theorem degenerate_roi_zero_output:
  assumes wf: "well_formed layer bottom_blob roi_ptr top_blob"
    and adaptive: "sampling_ratio layer \<le> 0" and al: "aligned layer"
    and degenerate:
      "(roi_end_h layer roi_ptr \<le> roi_start_h layer roi_ptr
          \<and> roi_start_h layer roi_ptr - roi_end_h layer roi_ptr
              < real_of_int (pooled_height layer))
       \<or> (roi_end_w layer roi_ptr \<le> roi_start_w layer roi_ptr
          \<and> roi_start_w layer roi_ptr - roi_end_w layer roi_ptr
              < real_of_int (pooled_width layer))"
  shows "(roi_end_h layer roi_ptr \<le> roi_start_h layer roi_ptr
            \<and> roi_start_h layer roi_ptr - roi_end_h layer roi_ptr
                < real_of_int (pooled_height layer)
          \<longrightarrow> roi_bin_grid_h layer roi_ptr = 0)
       \<and> (roi_end_w layer roi_ptr \<le> roi_start_w layer roi_ptr
            \<and> roi_start_w layer roi_ptr - roi_end_w layer roi_ptr
                < real_of_int (pooled_width layer)
          \<longrightarrow> roi_bin_grid_w layer roi_ptr = 0)
       \<and> forward_pre_calc layer bottom_blob roi_ptr = Inr []
       \<and> count layer roi_ptr = 1
       \<and> forward layer bottom_blob roi_ptr (Some top_blob)
           = Inr (replicate (nat (mat_c bottom_blob))
                    (replicate (nat (pooled_height layer) * nat (pooled_width layer)) 0))"
proof -
  let ?gh = "roi_bin_grid_h layer roi_ptr" and ?gw = "roi_bin_grid_w layer roi_ptr"
  have pos: "0 < pooled_width layer" "0 < pooled_height layer"
    using wf by (simp_all add: well_formed_def)
  have h: "?gh = 0"
    if "roi_end_h layer roi_ptr \<le> roi_start_h layer roi_ptr"
      "roi_start_h layer roi_ptr - roi_end_h layer roi_ptr < real_of_int (pooled_height layer)"
  proof -
    have "roi_height layer roi_ptr \<le> 0"
      "- real_of_int (pooled_height layer) < roi_height layer roi_ptr"
      using that al by (simp_all add: roi_height_def)
    from ceiling_zero[OF pos(2) this] show ?thesis
      using adaptive by (simp add: roi_bin_grid_h_def)
  qed
  have w: "?gw = 0"
    if "roi_end_w layer roi_ptr \<le> roi_start_w layer roi_ptr"
      "roi_start_w layer roi_ptr - roi_end_w layer roi_ptr < real_of_int (pooled_width layer)"
  proof -
    have "roi_width layer roi_ptr \<le> 0"
      "- real_of_int (pooled_width layer) < roi_width layer roi_ptr"
      using that al by (simp_all add: roi_width_def)
    from ceiling_zero[OF pos(1) this] show ?thesis
      using adaptive by (simp add: roi_bin_grid_w_def)
  qed
  have zero: "?gh * ?gw = 0"
    using degenerate h w by auto
  then have G: "nat ?gh * nat ?gw = 0" by auto
  have n: "0 \<le> ?gh * ?gw * pooled_width layer * pooled_height layer"
    and nn: "0 \<le> ?gh * ?gw"
    unfolding zero by simp_all
  have n0: "?gh * ?gw * pooled_width layer * pooled_height layer = 0"
    unfolding zero by simp
  have fit: "?gh * ?gw * pooled_width layer * pooled_height layer \<le> 2147483647"
    unfolding n0 by simp
  have wrap: "int32 (int32 (int32 (?gh * ?gw) * pooled_width layer) * pooled_height layer)
              = ?gh * ?gw * pooled_width layer * pooled_height layer"
    unfolding zero by (simp add: int32_def)
  have "forward_plan layer bottom_blob roi_ptr = []"
    unfolding forward_plan_all_zero[OF G] n0 by simp
  then have plan: "forward_pre_calc layer bottom_blob roi_ptr = Inr []"
    using forward_pre_calc_exact[OF n wrap] by simp
  have cnt: "count layer roi_ptr = 1"
    unfolding count_def zero by (simp add: int32_def)
  have "cell_value ?gh ?gw cnt pre_calc ptr = (\<lambda>k. 0)" for cnt pre_calc ptr
    by (rule ext) (simp add: cell_value_def G)
  then have "forward_output layer bottom_blob roi_ptr
             = replicate (nat (mat_c bottom_blob))
                 (replicate (nat (pooled_height layer) * nat (pooled_width layer)) 0)"
    by (simp add: forward_output_def map_replicate_trivial)
  then have run: "forward layer bottom_blob roi_ptr (Some top_blob)
           = Inr (replicate (nat (mat_c bottom_blob))
                    (replicate (nat (pooled_height layer) * nat (pooled_width layer)) 0))"
    using forward_exact[OF wf nn fit] by simp
  show ?thesis
    using h w plan cnt run by blast
qed

theorem degenerate_roi_zero_output_witness:
  "well_formed adaptive_layer2 example_blob [1, 3, 3, 2] example_top
   \<and> sampling_ratio adaptive_layer2 \<le> 0 \<and> aligned adaptive_layer2
   \<and> roi_end_h adaptive_layer2 [1, 3, 3, 2] \<le> roi_start_h adaptive_layer2 [1, 3, 3, 2]
   \<and> roi_start_h adaptive_layer2 [1, 3, 3, 2] - roi_end_h adaptive_layer2 [1, 3, 3, 2]
       < real_of_int (pooled_height adaptive_layer2)
   \<and> roi_bin_grid_h adaptive_layer2 [1, 3, 3, 2] = 0
   \<and> forward_pre_calc adaptive_layer2 example_blob [1, 3, 3, 2] = Inr []
   \<and> count adaptive_layer2 [1, 3, 3, 2] = 1
   \<and> forward adaptive_layer2 example_blob [1, 3, 3, 2] (Some example_top)
       = Inr (replicate (nat (mat_c example_blob))
                (replicate (nat (pooled_height adaptive_layer2)
                            * nat (pooled_width adaptive_layer2)) 0))"
proof -
  have wf: "well_formed adaptive_layer2 example_blob [1, 3, 3, 2] example_top"
    by (simp add: well_formed_def adaptive_layer2_def example_blob_def example_top_def)
  have ad: "sampling_ratio adaptive_layer2 \<le> 0" and al: "aligned adaptive_layer2"
    by (simp_all add: adaptive_layer2_def)
  have d1: "roi_end_h adaptive_layer2 [1, 3, 3, 2] \<le> roi_start_h adaptive_layer2 [1, 3, 3, 2]"
    and d2: "roi_start_h adaptive_layer2 [1, 3, 3, 2] - roi_end_h adaptive_layer2 [1, 3, 3, 2]
             < real_of_int (pooled_height adaptive_layer2)"
    by (simp_all add: roi_end_h_def roi_start_h_def offset_def adaptive_layer2_def)
  from d1 d2 have d:
    "(roi_end_h adaptive_layer2 [1, 3, 3, 2] \<le> roi_start_h adaptive_layer2 [1, 3, 3, 2]
        \<and> roi_start_h adaptive_layer2 [1, 3, 3, 2] - roi_end_h adaptive_layer2 [1, 3, 3, 2]
            < real_of_int (pooled_height adaptive_layer2))
     \<or> (roi_end_w adaptive_layer2 [1, 3, 3, 2] \<le> roi_start_w adaptive_layer2 [1, 3, 3, 2]
        \<and> roi_start_w adaptive_layer2 [1, 3, 3, 2] - roi_end_w adaptive_layer2 [1, 3, 3, 2]
            < real_of_int (pooled_width adaptive_layer2))"
    by blast
  show ?thesis
    using degenerate_roi_zero_output[OF wf ad al d] wf ad al d1 d2 by blast
qed

text \<open>
  The claim as stated fails: a ROI whose end lies above its start by the pooled height or
  more has a negative grid size, not 0, and the forward pass does not succeed.
\<close>

theorem degenerate_roi_negative_grid:
  "sampling_ratio adaptive_layer1 \<le> 0 \<and> aligned adaptive_layer1
   \<and> roi_end_h adaptive_layer1 [0, 3, 2, 0] \<le> roi_start_h adaptive_layer1 [0, 3, 2, 0]
   \<and> roi_height adaptive_layer1 [0, 3, 2, 0] \<le> 0
   \<and> roi_bin_grid_h adaptive_layer1 [0, 3, 2, 0] = - 3
   \<and> forward adaptive_layer1 example_blob [0, 3, 2, 0] (Some [[9]]) = Inl LengthError"
proof -
  have gh: "roi_bin_grid_h adaptive_layer1 [0, 3, 2, 0] = - 3"
    by (simp add: roi_bin_grid_h_def roi_height_def roi_end_h_def roi_start_h_def offset_def
        adaptive_layer1_def)
  have gw: "roi_bin_grid_w adaptive_layer1 [0, 3, 2, 0] = 2"
    by (simp add: roi_bin_grid_w_def roi_width_def roi_end_w_def roi_start_w_def offset_def
        adaptive_layer1_def)
  have "forward_pre_calc adaptive_layer1 example_blob [0, 3, 2, 0] = Inl LengthError"
    using gh gw by (simp add: forward_pre_calc_def int32_def adaptive_layer1_def)
  then have "forward adaptive_layer1 example_blob [0, 3, 2, 0] (Some [[9]]) = Inl LengthError"
    by (simp add: forward_def and_then_Inl)
  then show ?thesis
    using gh
    by (simp add: roi_height_def roi_end_h_def roi_start_h_def offset_def adaptive_layer1_def)
qed

end
